theory Spec2Isabelle
  imports Complex_Main "HOL-Library.Log_Nat" "HOL-Library.Product_Lexorder"
begin

section \<open>Landslide susceptibility: the weighted overlay of the Earth Engine script\<close>

text \<open>
  The script \<^verbatim>\<open>google earth engine script.js\<close> builds its result from images of the
  hosted platform. Most operations it uses work cell by cell, so a cell of an image is
  modelled first: a value, or nothing where the cell is masked. The distance transform
  and the region reducer work on whole rasters and are modelled on a grid of cells. The
  terrain operators (slope, neighbourhood standard deviation) are not modelled: the
  slope and roughness layers are inputs. Numbers are IEEE 754 binary64 values, in
  JavaScript and on the platform alike, and every arithmetic result is rounded.
\<close>

subsection \<open>Binary64 numbers\<close>

text \<open>
  A double is a finite value, an infinity or not-a-number. The sign of zero is not
  modelled: no operation the script uses tells the two zeros apart (the platform's
  division by zero gives 0).
\<close>

datatype double = Finite real | PInf | NInf | NaN

text \<open>The binary exponent of a positive value: the e with 2^e \<le> x < 2^(e+1).\<close>

definition expo :: "real \<Rightarrow> int" where
  "expo x = (if 1 \<le> x then bitlen \<lfloor>x\<rfloor> - 1 else - bitlen (\<lceil>1 / x\<rceil> - 1))"

text \<open>Rounding to the nearest integer, a tie to the even one.\<close>

definition round_even :: "real \<Rightarrow> int" where
  "round_even y =
     (let f = \<lfloor>y\<rfloor>; d = y - of_int f
      in if d < 1 / 2 then f else if 1 / 2 < d then f + 1 else if even f then f else f + 1)"

text \<open>
  Rounding to 53 significant bits, with the exponent of the last bit no smaller than
  -1074 (gradual underflow).
\<close>

definition rnd :: "real \<Rightarrow> real" where
  "rnd x =
     (if x = 0 then 0
      else let q = max (expo \<bar>x\<bar> - 52) (- 1074)
           in of_int (round_even (x / 2 powi q)) * 2 powi q)"

definition max_finite :: real where
  "max_finite = (2 ^ 53 - 1) * 2 ^ 971"

text \<open>The double a real result becomes: rounded, or an infinity on overflow.\<close>

definition to_double :: "real \<Rightarrow> double" where
  "to_double x =
     (let y = rnd x
      in if max_finite < y then PInf else if y < - max_finite then NInf else Finite y)"

text \<open>A numeric literal of the script is the double nearest to it.\<close>

definition lit :: "real \<Rightarrow> double" where
  "lit c = to_double c"

definition dsign :: "double \<Rightarrow> real" where
  "dsign a = (case a of Finite x \<Rightarrow> sgn x | PInf \<Rightarrow> 1 | NInf \<Rightarrow> - 1 | NaN \<Rightarrow> 0)"

definition signed_inf :: "real \<Rightarrow> double" where
  "signed_inf s = (if s = 0 then NaN else if 0 < s then PInf else NInf)"

definition dadd :: "double \<Rightarrow> double \<Rightarrow> double" where
  "dadd a b =
     (case (a, b) of
        (NaN, _) \<Rightarrow> NaN
      | (_, NaN) \<Rightarrow> NaN
      | (Finite x, Finite y) \<Rightarrow> to_double (x + y)
      | (PInf, NInf) \<Rightarrow> NaN
      | (NInf, PInf) \<Rightarrow> NaN
      | (Finite x, _) \<Rightarrow> b
      | (_, _) \<Rightarrow> a)"

definition dmul :: "double \<Rightarrow> double \<Rightarrow> double" where
  "dmul a b =
     (case (a, b) of
        (NaN, _) \<Rightarrow> NaN
      | (_, NaN) \<Rightarrow> NaN
      | (Finite x, Finite y) \<Rightarrow> to_double (x * y)
      | (_, _) \<Rightarrow> signed_inf (dsign a * dsign b))"

text \<open>
  Division as the platform's \<^verbatim>\<open>divide\<close> has it: a division by 0 gives 0; otherwise the
  IEEE quotient.
\<close>

definition ddiv :: "double \<Rightarrow> double \<Rightarrow> double" where
  "ddiv a b =
     (if b = Finite 0 then Finite 0
      else case (a, b) of
        (NaN, _) \<Rightarrow> NaN
      | (_, NaN) \<Rightarrow> NaN
      | (Finite x, Finite y) \<Rightarrow> to_double (x / y)
      | (Finite x, _) \<Rightarrow> Finite 0
      | (_, Finite y) \<Rightarrow> signed_inf (dsign a * sgn y)
      | (_, _) \<Rightarrow> NaN)"

text \<open>Comparisons: every comparison with not-a-number is false.\<close>

definition dle :: "double \<Rightarrow> double \<Rightarrow> bool" where
  "dle a b =
     (case (a, b) of
        (NaN, _) \<Rightarrow> False
      | (_, NaN) \<Rightarrow> False
      | (Finite x, Finite y) \<Rightarrow> x \<le> y
      | (NInf, _) \<Rightarrow> True
      | (_, PInf) \<Rightarrow> True
      | (_, _) \<Rightarrow> False)"

definition dlt :: "double \<Rightarrow> double \<Rightarrow> bool" where
  "dlt a b =
     (case (a, b) of
        (NaN, _) \<Rightarrow> False
      | (_, NaN) \<Rightarrow> False
      | (Finite x, Finite y) \<Rightarrow> x < y
      | (PInf, _) \<Rightarrow> False
      | (_, NInf) \<Rightarrow> False
      | (_, _) \<Rightarrow> True)"

definition deq :: "double \<Rightarrow> double \<Rightarrow> bool" where
  "deq a b = (a = b \<and> a \<noteq> NaN)"

definition is_nonzero :: "double \<Rightarrow> bool" where
  "is_nonzero a = (a \<noteq> Finite 0)"

subsection \<open>Cells and the cell-wise operations of the platform\<close>

type_synonym pixel = "double option"

text \<open>\<^verbatim>\<open>ee.Image(c)\<close>: the constant image, unmasked everywhere.\<close>

definition Image :: "real \<Rightarrow> pixel" where
  "Image c = Some (lit c)"

text \<open>
  A binary operation of two images: the result is masked where either operand is.
  A number passed where an image is expected stands for the constant image.
\<close>

definition binop :: "(double \<Rightarrow> double \<Rightarrow> double) \<Rightarrow> pixel \<Rightarrow> pixel \<Rightarrow> pixel" where
  "binop f a b =
     (case a of None \<Rightarrow> None
      | Some x \<Rightarrow> (case b of None \<Rightarrow> None | Some y \<Rightarrow> Some (f x y)))"

definition truth :: "bool \<Rightarrow> double" where
  "truth b = (if b then Finite 1 else Finite 0)"

text \<open>\<^verbatim>\<open>eq\<close>, \<^verbatim>\<open>lte\<close>, \<^verbatim>\<open>gt\<close>: comparisons, 1 where they hold and 0 elsewhere.\<close>

definition eq_img :: "pixel \<Rightarrow> pixel \<Rightarrow> pixel" where
  "eq_img = binop (\<lambda>x y. truth (deq x y))"

definition lte_img :: "pixel \<Rightarrow> pixel \<Rightarrow> pixel" where
  "lte_img = binop (\<lambda>x y. truth (dle x y))"

definition gt_img :: "pixel \<Rightarrow> pixel \<Rightarrow> pixel" where
  "gt_img = binop (\<lambda>x y. truth (dlt y x))"

text \<open>\<^verbatim>\<open>and\<close>: 1 where both operands are non-zero.\<close>

definition and_img :: "pixel \<Rightarrow> pixel \<Rightarrow> pixel" where
  "and_img = binop (\<lambda>x y. truth (is_nonzero x \<and> is_nonzero y))"

definition multiply_img :: "pixel \<Rightarrow> pixel \<Rightarrow> pixel" where
  "multiply_img = binop dmul"

definition add_img :: "pixel \<Rightarrow> pixel \<Rightarrow> pixel" where
  "add_img = binop dadd"

definition divide_img :: "pixel \<Rightarrow> pixel \<Rightarrow> pixel" where
  "divide_img = binop ddiv"

text \<open>
  \<^verbatim>\<open>input.where(test, value)\<close>: where the test is non-zero the cell takes the value,
  elsewhere it keeps the input. Where the test or the value is masked the input is kept,
  and a masked input stays masked.
\<close>

definition where_img :: "pixel \<Rightarrow> pixel \<Rightarrow> pixel \<Rightarrow> pixel" where
  "where_img input test val =
     (case input of None \<Rightarrow> None
      | Some i \<Rightarrow>
          (case test of None \<Rightarrow> Some i
           | Some t \<Rightarrow>
               (case val of None \<Rightarrow> Some i
                | Some v \<Rightarrow> if is_nonzero t then Some v else Some i)))"

text \<open>\<^verbatim>\<open>unmask(c)\<close>: a masked cell becomes the unmasked value c.\<close>

definition unmask_img :: "pixel \<Rightarrow> real \<Rightarrow> pixel" where
  "unmask_img a c = (case a of None \<Rightarrow> Some (lit c) | Some x \<Rightarrow> Some x)"

text \<open>
  A chain \<^verbatim>\<open>input.where(t1, v1).where(t2, v2)...\<close> applies its rules from left to right,
  each to the result of the one before.
\<close>

definition where_chain :: "pixel \<Rightarrow> (pixel \<times> pixel) list \<Rightarrow> pixel" where
  "where_chain input rules = foldl (\<lambda>img (test, val). where_img img test val) input rules"

text \<open>A rule fires at a cell when its test is unmasked and non-zero there.\<close>

definition fires :: "pixel \<times> pixel \<Rightarrow> bool" where
  "fires rule = (case fst rule of None \<Rightarrow> False | Some t \<Rightarrow> is_nonzero t)"

subsection \<open>The ordinal scores (script lines 80-91 and 113-145)\<close>

definition lc_rules :: "pixel \<Rightarrow> (pixel \<times> pixel) list" where
  "lc_rules worldCover =
     [(eq_img worldCover (Image 10), Image 1),
      (eq_img worldCover (Image 20), Image 3),
      (eq_img worldCover (Image 30), Image 3),
      (eq_img worldCover (Image 40), Image 3),
      (eq_img worldCover (Image 50), Image 4),
      (eq_img worldCover (Image 60), Image 5),
      (eq_img worldCover (Image 70), Image 1),
      (eq_img worldCover (Image 80), Image 1),
      (eq_img worldCover (Image 90), Image 2),
      (eq_img worldCover (Image 100), Image 2)]"

definition lcScore :: "pixel \<Rightarrow> pixel" where
  "lcScore worldCover = where_chain (Image 0) (lc_rules worldCover)"

definition slope_rules :: "pixel \<Rightarrow> (pixel \<times> pixel) list" where
  "slope_rules s =
     [(lte_img s (Image 5), Image 1),
      (and_img (gt_img s (Image 5)) (lte_img s (Image 15)), Image 2),
      (and_img (gt_img s (Image 15)) (lte_img s (Image 25)), Image 3),
      (and_img (gt_img s (Image 25)) (lte_img s (Image 35)), Image 4),
      (gt_img s (Image 35), Image 5)]"

definition slopeScore :: "pixel \<Rightarrow> pixel" where
  "slopeScore s = where_chain (Image 0) (slope_rules s)"

definition rough_rules :: "pixel \<Rightarrow> (pixel \<times> pixel) list" where
  "rough_rules r =
     [(lte_img r (Image 1), Image 1),
      (and_img (gt_img r (Image 1)) (lte_img r (Image 3)), Image 2),
      (and_img (gt_img r (Image 3)) (lte_img r (Image 6)), Image 3),
      (and_img (gt_img r (Image 6)) (lte_img r (Image 12)), Image 4),
      (gt_img r (Image 12), Image 5)]"

definition roughScore :: "pixel \<Rightarrow> pixel" where
  "roughScore r = where_chain (Image 0) (rough_rules r)"

text \<open>
  The two distance chains of the script have the same tests and values, one over
  \<^verbatim>\<open>dtWater\<close> and one over \<^verbatim>\<open>dtRoad\<close>.
\<close>

definition distWater_rules :: "pixel \<Rightarrow> (pixel \<times> pixel) list" where
  "distWater_rules d =
     [(lte_img d (Image 50), Image 5),
      (and_img (gt_img d (Image 50)) (lte_img d (Image 100)), Image 4),
      (and_img (gt_img d (Image 100)) (lte_img d (Image 250)), Image 3),
      (and_img (gt_img d (Image 250)) (lte_img d (Image 500)), Image 2),
      (gt_img d (Image 500), Image 1)]"

definition distWaterScore :: "pixel \<Rightarrow> pixel" where
  "distWaterScore d = where_chain (Image 0) (distWater_rules d)"

definition distRoad_rules :: "pixel \<Rightarrow> (pixel \<times> pixel) list" where
  "distRoad_rules d =
     [(lte_img d (Image 50), Image 5),
      (and_img (gt_img d (Image 50)) (lte_img d (Image 100)), Image 4),
      (and_img (gt_img d (Image 100)) (lte_img d (Image 250)), Image 3),
      (and_img (gt_img d (Image 250)) (lte_img d (Image 500)), Image 2),
      (gt_img d (Image 500), Image 1)]"

definition distRoadScore :: "pixel \<Rightarrow> pixel" where
  "distRoadScore d = where_chain (Image 0) (distRoad_rules d)"

subsection \<open>The weighted overlay (script lines 15-21 and 153-171)\<close>

record weight_vector =
  slope :: double
  roughness :: double
  landcover :: double
  distWater :: double
  distRoad :: double

text \<open>The weights the script is configured with.\<close>

definition weights :: weight_vector where
  "weights = \<lparr>slope = lit 0.45, roughness = lit 0.15, landcover = lit 0.20,
              distWater = lit 0.10, distRoad = lit 0.10\<rparr>"

text \<open>The five score cells that enter the overlay, in the order the script adds them.\<close>

record scores =
  slope_s :: pixel
  rough_s :: pixel
  lc_s :: pixel
  distWater_s :: pixel
  distRoad_s :: pixel

definition weighted :: "weight_vector \<Rightarrow> scores \<Rightarrow> pixel" where
  "weighted w sc =
     add_img
       (add_img
          (add_img
             (add_img (multiply_img (slope_s sc) (Some (slope w)))
                      (multiply_img (rough_s sc) (Some (roughness w))))
             (multiply_img (lc_s sc) (Some (landcover w))))
          (multiply_img (distWater_s sc) (Some (distWater w))))
       (multiply_img (distRoad_s sc) (Some (distRoad w)))"

text \<open>Line 161 is JavaScript arithmetic: the sum from left to right, then times 5.\<close>

definition maxPossible :: "weight_vector \<Rightarrow> double" where
  "maxPossible w =
     dmul (lit 5)
       (dadd (dadd (dadd (dadd (slope w) (roughness w)) (landcover w)) (distWater w))
             (distRoad w))"

definition susceptibility :: "weight_vector \<Rightarrow> scores \<Rightarrow> pixel" where
  "susceptibility w sc = divide_img (weighted w sc) (Some (maxPossible w))"

definition class_rules :: "pixel \<Rightarrow> (pixel \<times> pixel) list" where
  "class_rules s =
     [(lte_img s (Image 0.2), Image 1),
      (and_img (gt_img s (Image 0.2)) (lte_img s (Image 0.4)), Image 2),
      (and_img (gt_img s (Image 0.4)) (lte_img s (Image 0.6)), Image 3),
      (and_img (gt_img s (Image 0.6)) (lte_img s (Image 0.8)), Image 4),
      (gt_img s (Image 0.8), Image 5)]"

definition susClass :: "pixel \<Rightarrow> pixel" where
  "susClass s = where_chain (Image 0) (class_rules s)"

text \<open>The scores of one cell, from the five predictor cells.\<close>

definition score_cell :: "pixel \<Rightarrow> pixel \<Rightarrow> pixel \<Rightarrow> pixel \<Rightarrow> pixel \<Rightarrow> scores" where
  "score_cell s r worldCover dtW dtR =
     \<lparr>slope_s = slopeScore s, rough_s = roughScore r, lc_s = lcScore worldCover,
      distWater_s = distWaterScore dtW, distRoad_s = distRoadScore dtR\<rparr>"

text \<open>A score cell is valid when it is unmasked and holds one of 1, 2, 3, 4, 5.\<close>

definition valid_score :: "pixel \<Rightarrow> bool" where
  "valid_score p =
     (p = Some (Finite 1) \<or> p = Some (Finite 2) \<or> p = Some (Finite 3) \<or>
      p = Some (Finite 4) \<or> p = Some (Finite 5))"

definition valid_scores :: "scores \<Rightarrow> bool" where
  "valid_scores sc =
     (valid_score (slope_s sc) \<and> valid_score (rough_s sc) \<and> valid_score (lc_s sc) \<and>
      valid_score (distWater_s sc) \<and> valid_score (distRoad_s sc))"

definition nonneg_weights :: "weight_vector \<Rightarrow> bool" where
  "nonneg_weights w =
     (dle (Finite 0) (slope w) \<and> dle (Finite 0) (roughness w) \<and>
      dle (Finite 0) (landcover w) \<and> dle (Finite 0) (distWater w) \<and>
      dle (Finite 0) (distRoad w))"

text \<open>
  A weight of ordinary size: 0, or a finite value between 2^-1000 and 2^1000, far from
  the underflow and overflow thresholds of the format.
\<close>

definition ordinary_weight :: "double \<Rightarrow> bool" where
  "ordinary_weight d =
     (case d of
        Finite x \<Rightarrow> x = 0 \<or> (2 powi (- 1000) \<le> x \<and> x \<le> 2 ^ 1000)
      | _ \<Rightarrow> False)"

definition ordinary_weights :: "weight_vector \<Rightarrow> bool" where
  "ordinary_weights w =
     (ordinary_weight (slope w) \<and> ordinary_weight (roughness w) \<and>
      ordinary_weight (landcover w) \<and> ordinary_weight (distWater w) \<and>
      ordinary_weight (distRoad w))"

text \<open>The sum of the weights when they are finite, taken exactly.\<close>

definition value_of :: "double \<Rightarrow> real" where
  "value_of d = (case d of Finite x \<Rightarrow> x | _ \<Rightarrow> 0)"

definition weight_sum :: "weight_vector \<Rightarrow> real" where
  "weight_sum w =
     value_of (slope w) + value_of (roughness w) + value_of (landcover w)
     + value_of (distWater w) + value_of (distRoad w)"

text \<open>
  The exact weighted sum of a cell: the five products of score and weight, added in
  the reals. It is what the overlay would give without rounding.
\<close>

definition score_value :: "pixel \<Rightarrow> real" where
  "score_value p = (case p of Some (Finite x) \<Rightarrow> x | _ \<Rightarrow> 0)"

definition exact_raw :: "weight_vector \<Rightarrow> scores \<Rightarrow> real" where
  "exact_raw w sc =
     score_value (slope_s sc) * value_of (slope w)
     + score_value (rough_s sc) * value_of (roughness w)
     + score_value (lc_s sc) * value_of (landcover w)
     + score_value (distWater_s sc) * value_of (distWater w)
     + score_value (distRoad_s sc) * value_of (distRoad w)"

text \<open>A value that the format holds exactly.\<close>

definition representable :: "double \<Rightarrow> bool" where
  "representable d = (case d of Finite x \<Rightarrow> to_double x = Finite x | _ \<Rightarrow> True)"

definition representable_weights :: "weight_vector \<Rightarrow> bool" where
  "representable_weights w =
     (representable (slope w) \<and> representable (roughness w) \<and>
      representable (landcover w) \<and> representable (distWater w) \<and>
      representable (distRoad w))"

subsection \<open>Rasters, the distance transform and the proximity layers (script lines 96-107)\<close>

text \<open>
  An image is a cell-wise function on the grid; a geometry is the list of the grid cells
  it covers at the working scale, and a vector feature likewise.
\<close>

type_synonym cell = "int \<times> int"
type_synonym image = "cell \<Rightarrow> pixel"
type_synonym geometry = "cell list"

text \<open>\<^verbatim>\<open>clip\<close>: cells outside the geometry are masked.\<close>

definition clip :: "image \<Rightarrow> geometry \<Rightarrow> image" where
  "clip img g c = (if c \<in> set g then img c else None)"

text \<open>
  \<^verbatim>\<open>toByte\<close>, \<^verbatim>\<open>byte\<close>: the cast to an unsigned 8-bit integer. The script applies it to
  cells holding 0 or 1 only, which it leaves as they are.
\<close>

definition toByte :: "pixel \<Rightarrow> pixel" where
  "toByte a =
     map_option
       (\<lambda>d. case d of
               Finite x \<Rightarrow> Finite (of_int (max 0 (min 255 \<lfloor>x\<rfloor>)))
             | PInf \<Rightarrow> Finite 255
             | _ \<Rightarrow> Finite 0) a"

text \<open>\<^verbatim>\<open>filterBounds\<close>: the features that meet the geometry.\<close>

definition filterBounds :: "geometry list \<Rightarrow> geometry \<Rightarrow> geometry list" where
  "filterBounds fs g = filter (\<lambda>f. list_ex (\<lambda>c. c \<in> set g) f) fs"

text \<open>\<^verbatim>\<open>paint\<close>: the cells a feature covers take the given value.\<close>

definition paint :: "image \<Rightarrow> geometry list \<Rightarrow> real \<Rightarrow> image" where
  "paint img fs v c = (if list_ex (\<lambda>f. c \<in> set f) fs then Some (lit v) else img c)"

text \<open>
  \<^verbatim>\<open>fastDistanceTransform(neighborhood, units, metric)\<close> of the platform: the distance,
  in the given metric, from each cell to the nearest non-zero cell of the input within
  the neighbourhood (a window of that many cells to each side), whatever the input's
  mask. The metric defaults to \<^verbatim>\<open>squared_euclidean\<close>, the units to pixels. What a cell
  holds when the window has no non-zero cell is left open: it is the parameter
  \<open>far\<close>.
\<close>

datatype metric = squared_euclidean | manhattan | chebyshev

definition metric_dist :: "metric \<Rightarrow> int \<times> int \<Rightarrow> real" where
  "metric_dist m d =
     (case m of
        squared_euclidean \<Rightarrow> of_int (fst d * fst d + snd d * snd d)
      | manhattan \<Rightarrow> of_int (\<bar>fst d\<bar> + \<bar>snd d\<bar>)
      | chebyshev \<Rightarrow> of_int (max \<bar>fst d\<bar> \<bar>snd d\<bar>))"

definition window :: "nat \<Rightarrow> (int \<times> int) list" where
  "window n = List.product [- int n..int n] [- int n..int n]"

definition nonzero :: "pixel \<Rightarrow> bool" where
  "nonzero a = (case a of None \<Rightarrow> False | Some x \<Rightarrow> is_nonzero x)"

definition fastDistanceTransform :: "pixel \<Rightarrow> nat \<Rightarrow> metric \<Rightarrow> image \<Rightarrow> image" where
  "fastDistanceTransform far neighborhood m img c =
     (case map (metric_dist m)
             (filter (\<lambda>d. nonzero (img (fst c + fst d, snd c + snd d)))
                     (window neighborhood)) of
        [] \<Rightarrow> far
      | x # xs \<Rightarrow> Some (Finite (fold min xs x)))"

text \<open>
  The script calls \<^verbatim>\<open>fastDistanceTransform(30)\<close>: a neighbourhood of 30 cells and the
  default metric.
\<close>

definition waterMask :: "image \<Rightarrow> image" where
  "waterMask gsw c = gt_img (gsw c) (Image 10)"

definition waterBinary :: "image \<Rightarrow> image" where
  "waterBinary gsw c = toByte (unmask_img (waterMask gsw c) 0)"

definition dtWater :: "pixel \<Rightarrow> image \<Rightarrow> image" where
  "dtWater far gsw c =
     multiply_img (fastDistanceTransform far 30 squared_euclidean (waterBinary gsw) c)
                  (Image 30)"

definition roadsRaster :: "geometry list \<Rightarrow> image" where
  "roadsRaster roads = paint (\<lambda>c. toByte (Image 0)) roads 1"

definition dtRoad :: "pixel \<Rightarrow> geometry list \<Rightarrow> image" where
  "dtRoad far roads c =
     multiply_img (fastDistanceTransform far 30 squared_euclidean (roadsRaster roads) c)
                  (Image 30)"

subsection \<open>The percentile statistics (script lines 181-187)\<close>

datatype error = TooManyPixels

text \<open>
  Modelled from the spec: the percentile reducer \<^verbatim>\<open>ee.Reducer.percentile\<close> of the hosted
  platform, which is not part of the repository. The spec asks for "percentile values" of
  the raster over the region; the reducer is taken as the nearest-rank percentile of the
  unmasked values (ordered with minus infinity first and not-a-number last), and reports
  nothing for a region without an unmasked cell.
\<close>

definition dkey :: "double \<Rightarrow> nat \<times> real" where
  "dkey d = (case d of NInf \<Rightarrow> (0, 0) | Finite x \<Rightarrow> (1, x) | PInf \<Rightarrow> (2, 0) | NaN \<Rightarrow> (3, 0))"

definition percentile_of :: "nat \<Rightarrow> double list \<Rightarrow> double option" where
  "percentile_of p xs =
     (if xs = [] then None
      else Some (sort_key dkey xs !
                   min (length xs - 1) (nat \<lceil>real p * real (length xs) / 100\<rceil> - 1)))"

definition percentile :: "nat list \<Rightarrow> double list \<Rightarrow> (nat \<times> double option) list" where
  "percentile ps xs = map (\<lambda>p. (p, percentile_of p xs)) ps"

text \<open>
  \<^verbatim>\<open>reduceRegion\<close>: the reducer applied to the unmasked cells of the image within the
  geometry; a region of more than \<^verbatim>\<open>maxPixels\<close> cells is an error.
\<close>

definition reduceRegion ::
  "(double list \<Rightarrow> 'r) \<Rightarrow> geometry \<Rightarrow> int \<Rightarrow> image \<Rightarrow> error + 'r" where
  "reduceRegion reducer g maxPixels img =
     (if int (length g) > maxPixels then Inl TooManyPixels
      else Inr (reducer (List.map_filter img g)))"

subsection \<open>The run (script lines 56-190)\<close>

text \<open>
  The layers a run reads. Slope and roughness are what the platform's terrain operators
  give for the elevation model clipped to the area of interest; land cover and water
  occurrence are the datasets before clipping; the roads are vector features.
\<close>

record sources =
  slope_img :: image
  roughness_img :: image
  worldCover_img :: image
  gsw_img :: image
  roads_fc :: "geometry list"

record outputs =
  susceptibility_out :: image
  susClass_out :: image
  stats_out :: "error + (nat \<times> double option) list"

definition scores_at :: "pixel \<Rightarrow> geometry \<Rightarrow> sources \<Rightarrow> cell \<Rightarrow> scores" where
  "scores_at far aoi src c =
     score_cell (slope_img src c) (roughness_img src c)
       (clip (worldCover_img src) aoi c)
       (dtWater far (clip (gsw_img src) aoi) c)
       (dtRoad far (filterBounds (roads_fc src) aoi) c)"

definition stats :: "image \<Rightarrow> geometry \<Rightarrow> error + (nat \<times> double option) list" where
  "stats img aoi = reduceRegion (percentile [10, 25, 50, 75, 90]) aoi (10 ^ 13) img"

text \<open>
  The script has no statement that raises or returns early: whatever the weights, a run
  ends with its layers and statistics requested. The weights are the script's global
  setting, here a parameter; \<open>far\<close> is what the distance transform holds beyond its
  neighbourhood.
\<close>

definition run :: "weight_vector \<Rightarrow> pixel \<Rightarrow> geometry \<Rightarrow> sources \<Rightarrow> error + outputs" where
  "run w far aoi src =
     (let sus = (\<lambda>c. susceptibility w (scores_at far aoi src c))
      in Inr \<lparr>susceptibility_out = sus,
              susClass_out = (\<lambda>c. susClass (sus c)),
              stats_out = stats sus aoi\<rparr>)"

subsection \<open>Rounding error\<close>

text \<open>The unit roundoff of the format: half the gap between 1 and the next double.\<close>

definition unit_roundoff :: real where
  "unit_roundoff = 1 / 2 ^ 53"

text \<open>
  A value that is 0 or lies in the normal range rounds to a finite double with a
  relative error of at most the unit roundoff.
\<close>

definition in_normal_range :: "real \<Rightarrow> bool" where
  "in_normal_range x = (x = 0 \<or> (2 powi (- 1022) \<le> x \<and> x \<le> 2 ^ 1023))"

text \<open>
  A computed value x approximates the exact value X after n roundings: it lies between
  X times (1 - u)^n and X times (1 + u)^n.
\<close>

definition approx :: "nat \<Rightarrow> real \<Rightarrow> real \<Rightarrow> bool" where
  "approx n x X =
     ((1 - unit_roundoff) ^ n * X \<le> x \<and> x \<le> (1 + unit_roundoff) ^ n * X)"

text \<open>The exact values the overlay of ordinary weights meets: 0, or well inside the range.\<close>

definition exact_range :: "real \<Rightarrow> bool" where
  "exact_range X = (X = 0 \<or> (2 powi (- 1000) \<le> X \<and> X \<le> 2 ^ 1010))"

text \<open>
  An exact value that is 0 or at least 2^-1000, and at most B times 2^1000: what sums
  of scores times ordinary weights are.
\<close>

definition ranged :: "real \<Rightarrow> real \<Rightarrow> bool" where
  "ranged B X = ((X = 0 \<or> 2 powi (- 1000) \<le> X) \<and> 0 \<le> X \<and> X \<le> B * 2 ^ 1000)"

subsection \<open>Example inputs\<close>

text \<open>A weight vector with a negative slope weight.\<close>

definition negative_slope_weights :: weight_vector where
  "negative_slope_weights =
     \<lparr>slope = lit (- 0.45), roughness = lit 0.15, landcover = lit 0.20,
      distWater = lit 0.10, distRoad = lit 0.10\<rparr>"

text \<open>Non-negative weights whose sum 5 * 1.0 is not what line 161 computes.\<close>

definition skewed_weights :: weight_vector where
  "skewed_weights =
     \<lparr>slope = lit 0.05, roughness = lit 0.05, landcover = lit 0.1,
      distWater = lit 0.7, distRoad = lit 0.1\<rparr>"

definition tenths_weights :: weight_vector where
  "tenths_weights =
     \<lparr>slope = lit 0.1, roughness = lit 0.1, landcover = lit 0.1,
      distWater = lit 0.2, distRoad = lit 0.1\<rparr>"

definition zero_weights :: weight_vector where
  "zero_weights =
     \<lparr>slope = lit 0, roughness = lit 0, landcover = lit 0, distWater = lit 0,
      distRoad = lit 0\<rparr>"

text \<open>Five scores that are all the same.\<close>

definition all_scores :: "real \<Rightarrow> scores" where
  "all_scores k =
     \<lparr>slope_s = Some (Finite k), rough_s = Some (Finite k), lc_s = Some (Finite k),
      distWater_s = Some (Finite k), distRoad_s = Some (Finite k)\<rparr>"

text \<open>Steep, smooth, tree-covered ground with no water and no road anywhere.\<close>

definition steep_dry_sources :: sources where
  "steep_dry_sources =
     \<lparr>slope_img = (\<lambda>c. Some (Finite 40)), roughness_img = (\<lambda>c. Some (Finite 0.5)),
      worldCover_img = (\<lambda>c. Some (Finite 10)), gsw_img = (\<lambda>c. Some (Finite 0)),
      roads_fc = []\<rparr>"

text \<open>Layers without coverage: every cell of every dataset is masked.\<close>

definition no_coverage_sources :: sources where
  "no_coverage_sources =
     \<lparr>slope_img = (\<lambda>c. None), roughness_img = (\<lambda>c. None),
      worldCover_img = (\<lambda>c. None), gsw_img = (\<lambda>c. None), roads_fc = []\<rparr>"

section \<open>Properties\<close>

subsection \<open>Rounding to binary64\<close>

lemma round_even_error: "\<bar>of_int (round_even y) - y\<bar> \<le> 1 / 2"
  unfolding round_even_def Let_def by (auto simp: abs_if) linarith+

lemma round_even_range: "\<lfloor>y\<rfloor> \<le> round_even y \<and> round_even y \<le> \<lfloor>y\<rfloor> + 1"
  by (simp add: round_even_def Let_def)

lemma round_even_mono:
  assumes "y \<le> z"
  shows "round_even y \<le> round_even z"
proof (cases "\<lfloor>y\<rfloor> = \<lfloor>z\<rfloor>")
  case True
  with assms have "y - of_int \<lfloor>y\<rfloor> \<le> z - of_int \<lfloor>z\<rfloor>"
    by simp
  with True show ?thesis
    by (auto simp: round_even_def Let_def)
next
  case False
  with assms have "\<lfloor>y\<rfloor> < \<lfloor>z\<rfloor>"
    using floor_mono[of y z] by linarith
  then show ?thesis
    using round_even_range[of y] round_even_range[of z] by linarith
qed

lemma expo_bounds:
  assumes "0 < x"
  shows "2 powi expo x \<le> x" and "x < 2 powi (expo x + 1)"
proof -
  have "2 powi expo x \<le> x \<and> x < 2 powi (expo x + 1)"
  proof (cases "1 \<le> x")
    case True
    define n where "n = \<lfloor>x\<rfloor>"
    have n: "0 < n" "of_int n \<le> x" "x < of_int n + 1"
      using True floor_correct[of x] by (simp_all add: n_def)
    have k: "1 \<le> bitlen n"
      using n(1) by (simp add: bitlen_alt_def)
    from bitlen_bounds[OF n(1)]
    have b: "2 ^ nat (bitlen n - 1) \<le> n" "n < 2 ^ nat (bitlen n)"
      by simp_all
    have e: "expo x = bitlen n - 1"
      using True by (simp add: expo_def n_def)
    have "(2::real) powi (bitlen n - 1) = 2 ^ nat (bitlen n - 1)"
      using k by (simp add: power_int_def)
    also have "\<dots> \<le> of_int n"
      using b(1) by (metis of_int_le_iff of_int_numeral of_int_power)
    finally have lo: "2 powi expo x \<le> x"
      using n(2) e by simp
    have "n + 1 \<le> 2 ^ nat (bitlen n)"
      using b(2) by simp
    then have "of_int (n + 1) \<le> (2::real) ^ nat (bitlen n)"
      by (metis of_int_le_iff of_int_numeral of_int_power)
    moreover have "(2::real) powi (bitlen n - 1 + 1) = 2 ^ nat (bitlen n)"
      using k by (simp add: power_int_def)
    ultimately have "x < 2 powi (expo x + 1)"
      using n(3) e by simp
    with lo show ?thesis by simp
  next
    case False
    define t where "t = 1 / x"
    define n where "n = \<lceil>t\<rceil> - 1"
    have t1: "1 < t"
      using False assms by (simp add: t_def)
    have "1 < \<lceil>t\<rceil>"
      using t1 by simp
    then have n1: "0 < n"
      by (simp add: n_def)
    have n2: "of_int n < t"
      using ceiling_correct[of t] by (simp add: n_def)
    have n3: "t \<le> of_int n + 1"
      by (simp add: n_def)
    note n = n1 n2 n3
    have k: "1 \<le> bitlen n"
      using n(1) by (simp add: bitlen_alt_def)
    from bitlen_bounds[OF n(1)]
    have b: "2 ^ nat (bitlen n - 1) \<le> n" "n < 2 ^ nat (bitlen n)"
      by simp_all
    have e: "expo x = - bitlen n"
      using False by (simp add: expo_def n_def t_def)
    have x: "x = 1 / t"
      by (simp add: t_def)
    have "n + 1 \<le> 2 ^ nat (bitlen n)"
      using b(2) by simp
    then have "of_int (n + 1) \<le> (2::real) ^ nat (bitlen n)"
      by (metis of_int_le_iff of_int_numeral of_int_power)
    with n(3) have "t \<le> 2 ^ nat (bitlen n)"
      by linarith
    then have "1 / 2 ^ nat (bitlen n) \<le> 1 / t"
      using t1 by (simp add: frac_le)
    moreover have "(2::real) powi (- bitlen n) = 1 / 2 ^ nat (bitlen n)"
      using k by (simp add: power_int_def field_simps)
    ultimately have lo: "2 powi expo x \<le> x"
      using e x by simp
    have "(2::real) ^ nat (bitlen n - 1) \<le> of_int n"
      using b(1) by (metis of_int_le_iff of_int_numeral of_int_power)
    with n(2) have "2 ^ nat (bitlen n - 1) < t"
      by linarith
    then have "1 / t < 1 / 2 ^ nat (bitlen n - 1)"
      by (simp add: frac_less2)
    moreover have "(2::real) powi (- bitlen n + 1) = 1 / 2 ^ nat (bitlen n - 1)"
    proof -
      have "(2::real) powi (- bitlen n + 1) = 2 powi (- (bitlen n - 1))"
        by (simp add: algebra_simps)
      also have "\<dots> = inverse (2 powi (bitlen n - 1))"
        by (rule power_int_minus)
      also have "(2::real) powi (bitlen n - 1) = 2 ^ nat (bitlen n - 1)"
        using k by (simp add: power_int_nonneg_exp)
      finally show ?thesis
        by (simp add: inverse_eq_divide)
    qed
    ultimately have "x < 2 powi (expo x + 1)"
      using e x by simp
    with lo show ?thesis by simp
  qed
  then show "2 powi expo x \<le> x" and "x < 2 powi (expo x + 1)"
    by simp_all
qed


lemma expo_unique:
  assumes "2 powi e \<le> x" and "x < 2 powi (e + 1)"
  shows "expo x = e"
proof -
  have pos: "0 < x"
    using assms(1) zero_less_power_int[of "2::real" e] by linarith
  note b = expo_bounds[OF pos]
  have "\<not> e + 1 \<le> expo x"
  proof
    assume "e + 1 \<le> expo x"
    then have "(2::real) powi (e + 1) \<le> 2 powi expo x"
      by (intro power_int_increasing) simp_all
    with b(1) assms(2) show False by linarith
  qed
  moreover have "\<not> expo x + 1 \<le> e"
  proof
    assume "expo x + 1 \<le> e"
    then have "(2::real) powi (expo x + 1) \<le> 2 powi e"
      by (intro power_int_increasing) simp_all
    with b(2) assms(1) show False by linarith
  qed
  ultimately show ?thesis by linarith
qed

lemma rnd_binade:
  assumes "2 powi e \<le> x" and "x < 2 powi (e + 1)" and "- 1022 \<le> e"
  shows "rnd x = of_int (round_even (x / 2 powi (e - 52))) * 2 powi (e - 52)"
proof -
  have pos: "0 < x"
    using assms(1) zero_less_power_int[of "2::real" e] by linarith
  have "expo \<bar>x\<bar> = e"
    using pos assms(1,2) by (simp add: expo_unique)
  moreover have "max (e - 52) (- 1074) = e - 52"
    using assms(3) by simp
  ultimately show ?thesis
    using pos by (simp add: rnd_def Let_def)
qed

lemma rnd_rel_error:
  assumes "2 powi (- 1022) \<le> x"
  shows "\<bar>rnd x - x\<bar> \<le> x * unit_roundoff"
proof -
  have pos: "0 < x"
    using assms zero_less_power_int[of "2::real" "- 1022"] by linarith
  define e where "e = expo x"
  have b: "2 powi e \<le> x" "x < 2 powi (e + 1)"
    using expo_bounds[OF pos] by (simp_all add: e_def)
  have e: "- 1022 \<le> e"
  proof (rule ccontr)
    assume "\<not> - 1022 \<le> e"
    then have "e + 1 \<le> - 1022" by simp
    then have "(2::real) powi (e + 1) \<le> 2 powi (- 1022)"
      by (intro power_int_increasing) simp_all
    with b(2) assms show False by linarith
  qed
  define q where "q = e - 52"
  define y where "y = x / 2 powi q"
  have r: "rnd x = of_int (round_even y) * 2 powi q"
    using rnd_binade[OF b e] by (simp add: q_def y_def)
  have x: "x = y * 2 powi q"
    by (simp add: y_def)
  have "\<bar>rnd x - x\<bar> = \<bar>of_int (round_even y) - y\<bar> * 2 powi q"
    unfolding r by (subst x) (simp add: abs_mult flip: left_diff_distrib)
  also have "\<dots> \<le> 1 / 2 * 2 powi q"
    by (intro mult_right_mono round_even_error) simp
  also have "\<dots> = 2 powi e * unit_roundoff"
  proof -
    have "(2::real) powi q = 2 powi e * 2 powi (- 52)"
      unfolding q_def by (simp add: power_int_diff power_int_minus field_simps)
    then show ?thesis
      by (simp add: unit_roundoff_def)
  qed
  also have "\<dots> \<le> x * unit_roundoff"
    using b(1) by (intro mult_right_mono) (simp_all add: unit_roundoff_def)
  finally show ?thesis .
qed

lemma rnd_normal:
  assumes "in_normal_range x"
  shows "to_double x = Finite (rnd x)"
    and "x * (1 - unit_roundoff) \<le> rnd x" and "rnd x \<le> x * (1 + unit_roundoff)"
proof -
  have *: "x * (1 - unit_roundoff) \<le> rnd x \<and> rnd x \<le> x * (1 + unit_roundoff) \<and> 0 \<le> x"
  proof (cases "x = 0")
    case True
    then show ?thesis by (simp add: rnd_def)
  next
    case False
    with assms have n: "2 powi (- 1022) \<le> x"
      by (simp add: in_normal_range_def)
    then have "0 < x"
      using zero_less_power_int[of "2::real" "- 1022"] by linarith
    with rnd_rel_error[OF n] show ?thesis
      by (simp add: abs_le_iff algebra_simps)
  qed
  then show "x * (1 - unit_roundoff) \<le> rnd x" and "rnd x \<le> x * (1 + unit_roundoff)"
    by simp_all
  have "x \<le> 2 ^ 1023"
    using assms by (auto simp: in_normal_range_def)
  then have "x * (1 + unit_roundoff) \<le> 2 ^ 1023 * (1 + unit_roundoff)"
    by (intro mult_right_mono) (simp_all add: unit_roundoff_def)
  also have "\<dots> \<le> max_finite"
    by (simp add: unit_roundoff_def max_finite_def)
  finally have hi: "rnd x \<le> max_finite"
    using * by linarith
  have "0 \<le> x * (1 - unit_roundoff)"
    using * by (simp add: unit_roundoff_def)
  with * have "0 \<le> rnd x" by linarith
  moreover have "0 < max_finite"
    by (simp add: max_finite_def)
  ultimately show "to_double x = Finite (rnd x)"
    using hi by (simp add: to_double_def Let_def)
qed

lemma unit_roundoff_bounds: "0 < unit_roundoff" "unit_roundoff < 1"
  by (simp_all add: unit_roundoff_def)

lemma approx_refl: "approx 0 X X"
  by (simp add: approx_def)

lemma approx_weaken:
  assumes "approx j x X" and "j \<le> n" and "0 \<le> X"
  shows "approx n x X"
proof -
  have "(1 - unit_roundoff) ^ n \<le> (1 - unit_roundoff) ^ j"
    using assms(2) unit_roundoff_bounds by (intro power_decreasing) simp_all
  then have lo: "(1 - unit_roundoff) ^ n * X \<le> (1 - unit_roundoff) ^ j * X"
    using assms(3) by (rule mult_right_mono)
  have "(1 + unit_roundoff) ^ j \<le> (1 + unit_roundoff) ^ n"
    using assms(2) unit_roundoff_bounds by (intro power_increasing) simp_all
  then have hi: "(1 + unit_roundoff) ^ j * X \<le> (1 + unit_roundoff) ^ n * X"
    using assms(3) by (rule mult_right_mono)
  from assms(1) lo hi show ?thesis
    unfolding approx_def by linarith
qed

lemma approx_add:
  assumes "approx n x X" and "approx n y Y"
  shows "approx n (x + y) (X + Y)"
  using assms unfolding approx_def distrib_left by linarith

lemma approx_scale:
  assumes "approx n x X" and "0 \<le> c"
  shows "approx n (c * x) (c * X)"
proof -
  have "c * ((1 - unit_roundoff) ^ n * X) \<le> c * x"
    using assms unfolding approx_def by (intro mult_left_mono) simp_all
  moreover have "c * x \<le> c * ((1 + unit_roundoff) ^ n * X)"
    using assms unfolding approx_def by (intro mult_left_mono) simp_all
  ultimately show ?thesis
    by (simp add: approx_def mult.left_commute)
qed

lemma roundoff_powers:
  assumes "n \<le> 8"
  shows "1 / 2 \<le> (1 - unit_roundoff) ^ n" and "(1 + unit_roundoff) ^ n \<le> 2"
proof -
  have "(1 - unit_roundoff) ^ 8 \<le> (1 - unit_roundoff) ^ n"
    using assms unit_roundoff_bounds by (intro power_decreasing) simp_all
  moreover have "1 / 2 \<le> (1 - unit_roundoff) ^ 8"
    by (simp add: unit_roundoff_def power_divide)
  ultimately show "1 / 2 \<le> (1 - unit_roundoff) ^ n"
    by linarith
  have "(1 + unit_roundoff) ^ n \<le> (1 + unit_roundoff) ^ 8"
    using assms unit_roundoff_bounds by (intro power_increasing) simp_all
  moreover have "(1 + unit_roundoff) ^ 8 \<le> 2"
    by (simp add: unit_roundoff_def power_divide)
  ultimately show "(1 + unit_roundoff) ^ n \<le> 2"
    by linarith
qed

lemma approx_normal:
  assumes "approx n x X" and "exact_range X" and "n \<le> 8"
  shows "in_normal_range x"
proof (cases "X = 0")
  case True
  with assms(1) show ?thesis
    by (simp add: approx_def in_normal_range_def)
next
  case False
  with assms(2) have X: "2 powi (- 1000) \<le> X" "X \<le> 2 ^ 1010"
    by (simp_all add: exact_range_def)
  have X0: "0 \<le> X"
    using X(1) zero_less_power_int[of "2::real" "- 1000"] by linarith
  have "1 / 2 * X \<le> (1 - unit_roundoff) ^ n * X"
    using roundoff_powers(1)[OF assms(3)] X0 by (rule mult_right_mono)
  moreover have "(2::real) powi (- 1022) \<le> 1 / 2 * 2 powi (- 1000)"
    by (simp add: power_int_minus field_simps)
  ultimately have lo: "2 powi (- 1022) \<le> x"
    using assms(1) X(1) unfolding approx_def by linarith
  have "(1 + unit_roundoff) ^ n * X \<le> 2 * X"
    using roundoff_powers(2)[OF assms(3)] X0 by (rule mult_right_mono)
  moreover have "2 * (2::real) ^ 1010 \<le> 2 ^ 1023"
    by simp
  ultimately have "x \<le> 2 ^ 1023"
    using assms(1) X(2) unfolding approx_def by linarith
  with lo show ?thesis
    by (simp add: in_normal_range_def)
qed

lemma approx_rnd:
  assumes "approx n x X" and "exact_range X" and "n \<le> 8"
  shows "to_double x = Finite (rnd x)" and "approx (Suc n) (rnd x) X"
proof -
  have nr: "in_normal_range x"
    using assms by (rule approx_normal)
  show "to_double x = Finite (rnd x)"
    using nr by (rule rnd_normal)
  have u: "0 \<le> 1 - unit_roundoff" "0 \<le> 1 + unit_roundoff"
    using unit_roundoff_bounds by simp_all
  have "(1 - unit_roundoff) ^ n * X * (1 - unit_roundoff) \<le> x * (1 - unit_roundoff)"
    using assms(1) u(1) unfolding approx_def by (intro mult_right_mono) simp_all
  moreover have "x * (1 + unit_roundoff) \<le> (1 + unit_roundoff) ^ n * X * (1 + unit_roundoff)"
    using assms(1) u(2) unfolding approx_def by (intro mult_right_mono) simp_all
  ultimately show "approx (Suc n) (rnd x) X"
    using rnd_normal(2,3)[OF nr] unfolding approx_def by (simp add: mult.commute mult.left_commute)
qed

lemmas fp_eval =
  lit_def to_double_def max_finite_def rnd_def expo_def compute_bitlen round_even_def
  Let_def dadd_def dmul_def ddiv_def dle_def dlt_def deq_def is_nonzero_def

lemma lit_int_values:
  "lit 0 = Finite 0"
  "lit 1 = Finite 1"
  "lit 2 = Finite 2"
  "lit 3 = Finite 3"
  "lit 4 = Finite 4"
  "lit 5 = Finite 5"
  "lit 6 = Finite 6"
  "lit 10 = Finite 10"
  "lit 12 = Finite 12"
  "lit 15 = Finite 15"
  "lit 20 = Finite 20"
  "lit 25 = Finite 25"
  "lit 30 = Finite 30"
  "lit 35 = Finite 35"
  "lit 40 = Finite 40"
  "lit 50 = Finite 50"
  "lit 60 = Finite 60"
  "lit 70 = Finite 70"
  "lit 80 = Finite 80"
  "lit 90 = Finite 90"
  "lit 100 = Finite 100"
  "lit 250 = Finite 250"
  "lit 500 = Finite 500"
  by (simp_all add: fp_eval)

lemma lit_fraction_values:
  "lit 0.2 = Finite (3602879701896397 / 18014398509481984)"
  "lit 0.4 = Finite (3602879701896397 / 9007199254740992)"
  "lit 0.6 = Finite (5404319552844595 / 9007199254740992)"
  "lit 0.8 = Finite (3602879701896397 / 4503599627370496)"
  "lit 0.45 = Finite (8106479329266893 / 18014398509481984)"
  "lit 0.15 = Finite (5404319552844595 / 36028797018963968)"
  "lit 0.1 = Finite (3602879701896397 / 36028797018963968)"
  "lit 0.05 = Finite (3602879701896397 / 72057594037927936)"
  "lit 0.7 = Finite (3152519739159347 / 4503599627370496)"
  "lit (- 0.45) = Finite (- (8106479329266893 / 18014398509481984))"
  by (simp_all add: fp_eval)

text \<open>The same literals as the simplifier writes them.\<close>

lemma lit_reduced_values:
  "lit (1 / 5) = Finite (3602879701896397 / 18014398509481984)"
  "lit (2 / 5) = Finite (3602879701896397 / 9007199254740992)"
  "lit (3 / 5) = Finite (5404319552844595 / 9007199254740992)"
  "lit (4 / 5) = Finite (3602879701896397 / 4503599627370496)"
  "lit (9 / 20) = Finite (8106479329266893 / 18014398509481984)"
  "lit (3 / 20) = Finite (5404319552844595 / 36028797018963968)"
  "lit (1 / 10) = Finite (3602879701896397 / 36028797018963968)"
  "lit (1 / 20) = Finite (3602879701896397 / 72057594037927936)"
  "lit (7 / 10) = Finite (3152519739159347 / 4503599627370496)"
  by (simp_all add: fp_eval)

subsection \<open>The where-chains as interval tables\<close>

lemmas chain_defs =
  where_chain_def where_img_def binop_def truth_def eq_img_def lte_img_def gt_img_def
  and_img_def dle_def dlt_def deq_def is_nonzero_def

text \<open>A chain written out: the slope chain as the script nests it.\<close>

lemma slopeScore_nested:
  "slopeScore s =
     where_img
       (where_img
          (where_img
             (where_img
                (where_img (Image 0) (lte_img s (Image 5)) (Image 1))
                (and_img (gt_img s (Image 5)) (lte_img s (Image 15))) (Image 2))
             (and_img (gt_img s (Image 15)) (lte_img s (Image 25))) (Image 3))
          (and_img (gt_img s (Image 25)) (lte_img s (Image 35))) (Image 4))
       (gt_img s (Image 35)) (Image 5)"
  by (simp add: slopeScore_def slope_rules_def where_chain_def)

lemma slopeScore_table:
  "slopeScore (Some (Finite x)) = Some (Finite (if x \<le> 5 then 1 else if x \<le> 15 then 2 else if x \<le> 25 then 3 else if x \<le> 35 then 4 else 5))"
  unfolding slopeScore_def slope_rules_def Image_def lit_int_values
  by (simp add: chain_defs)

lemma roughScore_table:
  "roughScore (Some (Finite x)) = Some (Finite (if x \<le> 1 then 1 else if x \<le> 3 then 2 else if x \<le> 6 then 3 else if x \<le> 12 then 4 else 5))"
  unfolding roughScore_def rough_rules_def Image_def lit_int_values
  by (simp add: chain_defs)

lemma distWaterScore_table:
  "distWaterScore (Some (Finite x)) = Some (Finite (if x \<le> 50 then 5 else if x \<le> 100 then 4 else if x \<le> 250 then 3 else if x \<le> 500 then 2 else 1))"
  unfolding distWaterScore_def distWater_rules_def Image_def lit_int_values
  by (simp add: chain_defs)

lemma distRoadScore_table:
  "distRoadScore (Some (Finite x)) = Some (Finite (if x \<le> 50 then 5 else if x \<le> 100 then 4 else if x \<le> 250 then 3 else if x \<le> 500 then 2 else 1))"
  unfolding distRoadScore_def distRoad_rules_def Image_def lit_int_values
  by (simp add: chain_defs)

text \<open>The class chain compares with the doubles nearest to 0.2, 0.4, 0.6 and 0.8.\<close>

lemma susClass_table:
  "susClass (Some (Finite x)) =
     Some (Finite (if x \<le> value_of (lit 0.2) then 1 else if x \<le> value_of (lit 0.4) then 2
                   else if x \<le> value_of (lit 0.6) then 3
                   else if x \<le> value_of (lit 0.8) then 4 else 5))"
  unfolding susClass_def class_rules_def Image_def lit_int_values lit_fraction_values
  by (simp add: chain_defs value_of_def)

text \<open>The rules that fire at an unmasked cell: one per chain, the one of its interval.\<close>

lemma slope_fired:
  "map snd (filter fires (slope_rules (Some (Finite x)))) = [Some (Finite (if x \<le> 5 then 1 else if x \<le> 15 then 2 else if x \<le> 25 then 3 else if x \<le> 35 then 4 else 5))]"
  unfolding slope_rules_def Image_def lit_int_values
  by (simp add: fires_def chain_defs)

lemma rough_fired:
  "map snd (filter fires (rough_rules (Some (Finite x)))) = [Some (Finite (if x \<le> 1 then 1 else if x \<le> 3 then 2 else if x \<le> 6 then 3 else if x \<le> 12 then 4 else 5))]"
  unfolding rough_rules_def Image_def lit_int_values
  by (simp add: fires_def chain_defs)

lemma distWater_fired:
  "map snd (filter fires (distWater_rules (Some (Finite x)))) = [Some (Finite (if x \<le> 50 then 5 else if x \<le> 100 then 4 else if x \<le> 250 then 3 else if x \<le> 500 then 2 else 1))]"
  unfolding distWater_rules_def Image_def lit_int_values
  by (simp add: fires_def chain_defs)

lemma distRoad_fired:
  "map snd (filter fires (distRoad_rules (Some (Finite x)))) = [Some (Finite (if x \<le> 50 then 5 else if x \<le> 100 then 4 else if x \<le> 250 then 3 else if x \<le> 500 then 2 else 1))]"
  unfolding distRoad_rules_def Image_def lit_int_values
  by (simp add: fires_def chain_defs)

lemma class_fired:
  "map snd (filter fires (class_rules (Some (Finite x)))) =
     [Some (Finite (if x \<le> value_of (lit 0.2) then 1 else if x \<le> value_of (lit 0.4) then 2
                   else if x \<le> value_of (lit 0.6) then 3
                   else if x \<le> value_of (lit 0.8) then 4 else 5))]"
  unfolding class_rules_def Image_def lit_int_values lit_fraction_values
  by (simp add: fires_def chain_defs value_of_def)

text \<open>A chain over a masked cell fires no rule and keeps the initial 0, unmasked.\<close>

lemma scores_of_masked:
  "slopeScore None = Some (Finite 0)" "roughScore None = Some (Finite 0)"
  "lcScore None = Some (Finite 0)" "distWaterScore None = Some (Finite 0)"
  "distRoadScore None = Some (Finite 0)" "susClass None = Some (Finite 0)"
  unfolding slopeScore_def slope_rules_def roughScore_def rough_rules_def lcScore_def
    lc_rules_def distWaterScore_def distWater_rules_def distRoadScore_def distRoad_rules_def
    susClass_def class_rules_def Image_def lit_int_values
  by (simp_all add: chain_defs)

lemma valid_score_table:
  "valid_score (slopeScore (Some (Finite x)))" "valid_score (roughScore (Some (Finite x)))"
  "valid_score (distWaterScore (Some (Finite x)))"
  "valid_score (distRoadScore (Some (Finite x)))"
  "valid_score (susClass (Some (Finite x)))"
  by (simp_all add: slopeScore_table roughScore_table distWaterScore_table
        distRoadScore_table susClass_table valid_score_def)

lemma lcScore_listed:
  "lcScore (Some (Finite 10)) = Some (Finite 1)" "lcScore (Some (Finite 20)) = Some (Finite 3)"
  "lcScore (Some (Finite 30)) = Some (Finite 3)" "lcScore (Some (Finite 40)) = Some (Finite 3)"
  "lcScore (Some (Finite 50)) = Some (Finite 4)" "lcScore (Some (Finite 60)) = Some (Finite 5)"
  "lcScore (Some (Finite 70)) = Some (Finite 1)" "lcScore (Some (Finite 80)) = Some (Finite 1)"
  "lcScore (Some (Finite 90)) = Some (Finite 2)" "lcScore (Some (Finite 100)) = Some (Finite 2)"
  unfolding lcScore_def lc_rules_def Image_def lit_int_values
  by (simp_all add: chain_defs)

lemma lcScore_unlisted:
  "x \<notin> {10, 20, 30, 40, 50, 60, 70, 80, 90, 100} \<Longrightarrow>
     lcScore (Some (Finite x)) = Some (Finite 0)"
  unfolding lcScore_def lc_rules_def Image_def lit_int_values
  by (simp add: chain_defs)

text \<open>Whatever a cell holds, masked or not, finite or not, each chain gives an unmasked value.\<close>

lemma where_img_unmasked: "\<exists>v. where_img (Some i) t (Some u) = Some v"
  by (cases t) (simp_all add: where_img_def)

lemma score_unmasked:
  "\<exists>v. slopeScore p = Some v" "\<exists>v. roughScore p = Some v" "\<exists>v. lcScore p = Some v"
  "\<exists>v. distWaterScore p = Some v" "\<exists>v. distRoadScore p = Some v"
  "\<exists>v. susClass p = Some v"
  unfolding slopeScore_def slope_rules_def roughScore_def rough_rules_def lcScore_def
    lc_rules_def distWaterScore_def distWater_rules_def distRoadScore_def distRoad_rules_def
    susClass_def class_rules_def Image_def where_chain_def
  by (cases p; simp add: where_img_def binop_def eq_img_def lte_img_def gt_img_def and_img_def)+

subsection \<open>The overlay in binary64\<close>

text \<open>The overlay of five unmasked scores, written out.\<close>

lemma weighted_Some:
  "weighted w \<lparr>slope_s = Some a, rough_s = Some b, lc_s = Some c,
               distWater_s = Some d, distRoad_s = Some e\<rparr> =
     Some (dadd (dadd (dadd (dadd (dmul a (slope w)) (dmul b (roughness w)))
                            (dmul c (landcover w)))
                      (dmul d (distWater w)))
                (dmul e (distRoad w)))"
  by (simp add: weighted_def add_img_def multiply_img_def binop_def)

lemma susceptibility_Some:
  "susceptibility w \<lparr>slope_s = Some a, rough_s = Some b, lc_s = Some c,
                     distWater_s = Some d, distRoad_s = Some e\<rparr> =
     Some (ddiv (dadd (dadd (dadd (dadd (dmul a (slope w)) (dmul b (roughness w)))
                                  (dmul c (landcover w)))
                            (dmul d (distWater w)))
                      (dmul e (distRoad w)))
                (dmul (lit 5)
                   (dadd (dadd (dadd (dadd (slope w) (roughness w)) (landcover w))
                               (distWater w))
                         (distRoad w))))"
  by (simp add: susceptibility_def weighted_Some maxPossible_def divide_img_def binop_def)

lemma susceptibility_unmasked: "\<exists>v. susceptibility w (score_cell s r lc dw dr) = Some v"
proof -
  obtain a b c d e where
    "slopeScore s = Some a" "roughScore r = Some b" "lcScore lc = Some c"
    "distWaterScore dw = Some d" "distRoadScore dr = Some e"
    using score_unmasked by metis
  then show ?thesis
    by (simp add: score_cell_def susceptibility_Some)
qed

lemma ranged_weight:
  assumes "ordinary_weight (Finite v)"
  shows "ranged 1 v"
proof -
  have "0 < (2::real) powi (- 1000)" by simp
  with assms show ?thesis
    unfolding ordinary_weight_def ranged_def by (auto simp del: zero_less_power_int)
qed

lemma ranged_add:
  assumes "ranged B X" and "ranged C Y"
  shows "ranged (B + C) (X + Y)"
  using assms unfolding ranged_def distrib_right by linarith

lemma ranged_scale:
  assumes "ranged B X" and "1 \<le> a" and "a \<le> 5"
  shows "ranged (5 * B) (a * X)"
proof -
  have X: "0 \<le> X" "X \<le> B * 2 ^ 1000" "X = 0 \<or> 2 powi (- 1000) \<le> X"
    using assms(1) by (simp_all add: ranged_def)
  have "X \<le> a * X"
    using X(1) assms(2) by (simp add: mult_le_cancel_right1)
  moreover have "a * X \<le> 5 * X"
    using assms(3) X(1) by (rule mult_right_mono)
  ultimately show ?thesis
    using X unfolding ranged_def by (auto; linarith)
qed

lemma ranged_exact:
  assumes "ranged B X" and "B \<le> 1024"
  shows "exact_range X" and "0 \<le> X"
proof -
  have "B * 2 ^ 1000 \<le> 1024 * (2::real) ^ 1000"
    using assms(2) by (intro mult_right_mono) simp_all
  also have "\<dots> = 2 ^ 1010"
    by simp
  finally show "exact_range X"
    using assms(1) unfolding ranged_def exact_range_def by linarith
  show "0 \<le> X"
    using assms(1) by (simp add: ranged_def)
qed

lemma dmul_step:
  assumes "exact_range (a * v)"
  shows "dmul (Finite a) (Finite v) = Finite (rnd (a * v))"
    and "approx 1 (rnd (a * v)) (a * v)"
  using approx_rnd[OF approx_refl assms] by (simp_all add: dmul_def)

lemma dadd_step:
  assumes "approx n x X" and "approx m y Y" and "m \<le> n" and "n \<le> 8"
    and "0 \<le> X" and "0 \<le> Y" and "exact_range (X + Y)"
  shows "dadd (Finite x) (Finite y) = Finite (rnd (x + y))"
    and "approx (Suc n) (rnd (x + y)) (X + Y)"
proof -
  have "approx n y Y"
    using assms(2,3,6) by (rule approx_weaken)
  with assms(1) have "approx n (x + y) (X + Y)"
    by (rule approx_add)
  from approx_rnd[OF this assms(7,4)]
  show "dadd (Finite x) (Finite y) = Finite (rnd (x + y))"
    and "approx (Suc n) (rnd (x + y)) (X + Y)"
    by (simp_all add: dadd_def)
qed

text \<open>
  With ordinary weights and scores between 1 and 5, the weighted sum and the maximum
  are finite, each within five roundings of its exact value.
\<close>

lemma weighted_approx:
  assumes "ordinary_weight (Finite w1)" "ordinary_weight (Finite w2)"
    "ordinary_weight (Finite w3)" "ordinary_weight (Finite w4)" "ordinary_weight (Finite w5)"
    and "1 \<le> a" "a \<le> 5" "1 \<le> b" "b \<le> 5" "1 \<le> c" "c \<le> 5" "1 \<le> d" "d \<le> 5"
      "1 \<le> e" "e \<le> 5"
  shows "\<exists>raw. dadd (dadd (dadd (dadd (dmul (Finite a) (Finite w1)) (dmul (Finite b) (Finite w2)))
                                 (dmul (Finite c) (Finite w3)))
                           (dmul (Finite d) (Finite w4)))
                     (dmul (Finite e) (Finite w5)) = Finite raw \<and>
               approx 5 raw (a * w1 + b * w2 + c * w3 + d * w4 + e * w5)"
proof -
  note rw = assms(1-5)[THEN ranged_weight]
  have r1: "ranged 5 (a * w1)" using ranged_scale[OF rw(1) assms(6,7)] by simp
  have r2: "ranged 5 (b * w2)" using ranged_scale[OF rw(2) assms(8,9)] by simp
  have r3: "ranged 5 (c * w3)" using ranged_scale[OF rw(3) assms(10,11)] by simp
  have r4: "ranged 5 (d * w4)" using ranged_scale[OF rw(4) assms(12,13)] by simp
  have r5: "ranged 5 (e * w5)" using ranged_scale[OF rw(5) assms(14,15)] by simp
  have r12: "ranged 10 (a * w1 + b * w2)" using ranged_add[OF r1 r2] by simp
  have r123: "ranged 15 (a * w1 + b * w2 + c * w3)" using ranged_add[OF r12 r3] by simp
  have r1234: "ranged 20 (a * w1 + b * w2 + c * w3 + d * w4)"
    using ranged_add[OF r123 r4] by simp
  have r12345: "ranged 25 (a * w1 + b * w2 + c * w3 + d * w4 + e * w5)"
    using ranged_add[OF r1234 r5] by simp
  note p1 = dmul_step[OF ranged_exact(1)[OF r1]]
  note p2 = dmul_step[OF ranged_exact(1)[OF r2]]
  note p3 = dmul_step[OF ranged_exact(1)[OF r3]]
  note p4 = dmul_step[OF ranged_exact(1)[OF r4]]
  note p5 = dmul_step[OF ranged_exact(1)[OF r5]]
  note s2 = dadd_step[OF p1(2) p2(2) _ _ ranged_exact(2)[OF r1] ranged_exact(2)[OF r2]
      ranged_exact(1)[OF r12]]
  have s2': "approx 2 (rnd (rnd (a * w1) + rnd (b * w2))) (a * w1 + b * w2)"
    using s2(2) by (simp add: numeral_2_eq_2)
  note s3 = dadd_step[OF s2' p3(2) _ _ ranged_exact(2)[OF r12] ranged_exact(2)[OF r3]
      ranged_exact(1)[OF r123]]
  have s3': "approx 3 (rnd (rnd (rnd (a * w1) + rnd (b * w2)) + rnd (c * w3)))
               (a * w1 + b * w2 + c * w3)"
    using s3(2) by (simp add: numeral_3_eq_3)
  note s4 = dadd_step[OF s3' p4(2) _ _ ranged_exact(2)[OF r123] ranged_exact(2)[OF r4]
      ranged_exact(1)[OF r1234]]
  have s4': "approx 4 (rnd (rnd (rnd (rnd (a * w1) + rnd (b * w2)) + rnd (c * w3))
                            + rnd (d * w4)))
               (a * w1 + b * w2 + c * w3 + d * w4)"
    using s4(2) by (simp add: eval_nat_numeral)
  note s5 = dadd_step[OF s4' p5(2) _ _ ranged_exact(2)[OF r1234] ranged_exact(2)[OF r5]
      ranged_exact(1)[OF r12345]]
  have s5': "approx 5 (rnd (rnd (rnd (rnd (rnd (a * w1) + rnd (b * w2)) + rnd (c * w3))
                                 + rnd (d * w4)) + rnd (e * w5)))
               (a * w1 + b * w2 + c * w3 + d * w4 + e * w5)"
    using s5(2) by (simp add: eval_nat_numeral)
  show ?thesis
    using s5' by (simp add: p1(1) p2(1) p3(1) p4(1) p5(1) s2(1) s3(1) s4(1) s5(1))
qed

lemma weight_chain_approx:
  assumes "ordinary_weight (Finite w1)" "ordinary_weight (Finite w2)"
    "ordinary_weight (Finite w3)" "ordinary_weight (Finite w4)" "ordinary_weight (Finite w5)"
  shows "\<exists>s. dadd (dadd (dadd (dadd (Finite w1) (Finite w2)) (Finite w3)) (Finite w4))
               (Finite w5) = Finite s \<and>
             approx 4 s (w1 + w2 + w3 + w4 + w5)"
    and "ranged 5 (w1 + w2 + w3 + w4 + w5)"
proof -
  note rw = assms[THEN ranged_weight]
  have r12: "ranged 2 (w1 + w2)" using ranged_add[OF rw(1) rw(2)] by simp
  have r123: "ranged 3 (w1 + w2 + w3)" using ranged_add[OF r12 rw(3)] by simp
  have r1234: "ranged 4 (w1 + w2 + w3 + w4)" using ranged_add[OF r123 rw(4)] by simp
  show r12345: "ranged 5 (w1 + w2 + w3 + w4 + w5)" using ranged_add[OF r1234 rw(5)] by simp
  note t2 = dadd_step[OF approx_refl approx_refl _ _ ranged_exact(2)[OF rw(1)]
      ranged_exact(2)[OF rw(2)] ranged_exact(1)[OF r12]]
  have t2': "approx 1 (rnd (w1 + w2)) (w1 + w2)"
    using t2(2) by simp
  note t3 = dadd_step[OF t2' approx_refl _ _ ranged_exact(2)[OF r12]
      ranged_exact(2)[OF rw(3)] ranged_exact(1)[OF r123]]
  have t3': "approx 2 (rnd (rnd (w1 + w2) + w3)) (w1 + w2 + w3)"
    using t3(2) by (simp add: eval_nat_numeral)
  note t4 = dadd_step[OF t3' approx_refl _ _ ranged_exact(2)[OF r123]
      ranged_exact(2)[OF rw(4)] ranged_exact(1)[OF r1234]]
  have t4': "approx 3 (rnd (rnd (rnd (w1 + w2) + w3) + w4)) (w1 + w2 + w3 + w4)"
    using t4(2) by (simp add: eval_nat_numeral)
  note t5 = dadd_step[OF t4' approx_refl _ _ ranged_exact(2)[OF r1234]
      ranged_exact(2)[OF rw(5)] ranged_exact(1)[OF r12345]]
  have t5': "approx 4 (rnd (rnd (rnd (rnd (w1 + w2) + w3) + w4) + w5))
               (w1 + w2 + w3 + w4 + w5)"
    using t5(2) by (simp add: eval_nat_numeral)
  show "\<exists>s. dadd (dadd (dadd (dadd (Finite w1) (Finite w2)) (Finite w3)) (Finite w4))
               (Finite w5) = Finite s \<and>
             approx 4 s (w1 + w2 + w3 + w4 + w5)"
    using t5' by (simp add: t2(1) t3(1) t4(1) t5(1))
qed

lemma max_from_sum:
  assumes "approx 4 s W" and "ranged 5 W"
  shows "dmul (lit 5) (Finite s) = Finite (rnd (5 * s))"
    and "approx 5 (rnd (5 * s)) (5 * W)" and "in_normal_range (5 * s)"
proof -
  have r5: "ranged 25 (5 * W)"
    using ranged_scale[OF assms(2), of 5] by simp
  have a: "approx 4 (5 * s) (5 * W)"
    using assms(1) by (rule approx_scale) simp
  show "in_normal_range (5 * s)"
    using a ranged_exact(1)[OF r5] by (rule approx_normal) simp_all
  from approx_rnd[OF a ranged_exact(1)[OF r5]]
  show "dmul (lit 5) (Finite s) = Finite (rnd (5 * s))"
    and "approx 5 (rnd (5 * s)) (5 * W)"
    by (simp_all add: eval_nat_numeral lit_int_values dmul_def)
qed

lemma maxPossible_approx:
  assumes "ordinary_weight (Finite w1)" "ordinary_weight (Finite w2)"
    "ordinary_weight (Finite w3)" "ordinary_weight (Finite w4)" "ordinary_weight (Finite w5)"
  shows "\<exists>M. dmul (lit 5)
                (dadd (dadd (dadd (dadd (Finite w1) (Finite w2)) (Finite w3)) (Finite w4))
                      (Finite w5)) = Finite M \<and>
             approx 5 M (5 * (w1 + w2 + w3 + w4 + w5))"
proof -
  from weight_chain_approx[OF assms] obtain s where
    s: "dadd (dadd (dadd (dadd (Finite w1) (Finite w2)) (Finite w3)) (Finite w4))
             (Finite w5) = Finite s"
    and a: "approx 4 s (w1 + w2 + w3 + w4 + w5)"
    and r: "ranged 5 (w1 + w2 + w3 + w4 + w5)"
    by blast
  from max_from_sum[OF a r] show ?thesis
    unfolding s by blast
qed

lemma roundoff_ratio:
  "(1 + unit_roundoff) ^ 6 \<le> (1 + 1 / 2 ^ 49) * (1 - unit_roundoff) ^ 5"
  "(1 - 1 / 2 ^ 49) * (1 + unit_roundoff) ^ 5 \<le> (1 - unit_roundoff) ^ 6"
  by (simp_all add: unit_roundoff_def power_divide)

text \<open>
  The quotient of two such values, rounded: within 2^-49, relatively, of the exact
  quotient.
\<close>

lemma quotient_error:
  assumes raw: "approx 5 raw E" and M: "approx 5 M D"
    and D: "0 < D" and E: "D / 5 \<le> E" "E \<le> D"
  shows "0 < M" and "to_double (raw / M) = Finite (rnd (raw / M))"
    and "(1 - 1 / 2 ^ 49) * E \<le> rnd (raw / M) * D"
    and "rnd (raw / M) * D \<le> (1 + 1 / 2 ^ 49) * E"
proof -
  define up where "up = (1 + unit_roundoff) ^ 5"
  define dn where "dn = (1 - unit_roundoff) ^ 5"
  have dn: "1 / 2 \<le> dn" and up: "up \<le> 2"
    using roundoff_powers[of 5] by (simp_all add: up_def dn_def)
  have up1: "1 \<le> up"
    unfolding up_def using unit_roundoff_bounds by (intro one_le_power) simp
  have E0: "0 < E"
    using D E(1) by (simp add: field_simps)
  have rawb: "dn * E \<le> raw" "raw \<le> up * E"
    using raw by (simp_all add: approx_def up_def dn_def)
  have Mb: "dn * D \<le> M" "M \<le> up * D"
    using M by (simp_all add: approx_def up_def dn_def)
  have "0 < dn * D"
    using dn D by simp
  with Mb(1) show M0: "0 < M"
    by linarith
  have raw0: "0 < raw"
  proof -
    have "0 < dn * E" using dn E0 by simp
    with rawb(1) show ?thesis by linarith
  qed
  define y where "y = raw / M"
  have yM: "y * M = raw"
    using M0 by (simp add: y_def)
  have y0: "0 < y"
    using raw0 M0 by (simp add: y_def)
  have ylo: "1 / 20 \<le> y"
  proof -
    have "1 / 2 * E \<le> dn * E"
      using dn E0 by (intro mult_right_mono) simp_all
    with rawb(1) E(1) have "D / 10 \<le> raw" by linarith
    moreover have "M \<le> 2 * D"
    proof -
      have "up * D \<le> 2 * D" using up D by (intro mult_right_mono) simp_all
      with Mb(2) show ?thesis by linarith
    qed
    ultimately have "(D / 10) / (2 * D) \<le> raw / M"
      using D M0 by (intro frac_le) simp_all
    then show ?thesis
      using D by (simp add: y_def)
  qed
  have yhi: "y \<le> 4"
  proof -
    have "up * E \<le> 2 * E"
      using up E0 by (intro mult_right_mono) simp_all
    with rawb(2) E(2) have "raw \<le> 2 * D" by linarith
    moreover have "1 / 2 * D \<le> M"
    proof -
      have "1 / 2 * D \<le> dn * D" using dn D by (intro mult_right_mono) simp_all
      with Mb(1) show ?thesis by linarith
    qed
    ultimately have "raw / M \<le> (2 * D) / (1 / 2 * D)"
      using D raw0 by (intro frac_le) simp_all
    then show ?thesis
      using D by (simp add: y_def)
  qed
  have nr: "in_normal_range y"
  proof -
    have "(2::real) powi (- 1022) \<le> 1 / 20"
      by (simp add: power_int_minus field_simps)
    moreover have "(4::real) \<le> 2 ^ 1023"
      by simp
    ultimately show ?thesis
      using ylo yhi unfolding in_normal_range_def by linarith
  qed
  from rnd_normal[OF nr]
  have fin: "to_double y = Finite (rnd y)"
    and rlo: "y * (1 - unit_roundoff) \<le> rnd y" and rhi: "rnd y \<le> y * (1 + unit_roundoff)"
    by simp_all
  show "to_double (raw / M) = Finite (rnd (raw / M))"
    using fin by (simp add: y_def)
  have u: "0 \<le> 1 - unit_roundoff" "0 \<le> 1 + unit_roundoff"
    using unit_roundoff_bounds by simp_all
  have r0: "0 \<le> rnd y"
  proof -
    have "0 \<le> y * (1 - unit_roundoff)" using y0 u(1) by simp
    with rlo show ?thesis by linarith
  qed
  have "rnd y * (dn * D) \<le> rnd y * M"
    using Mb(1) r0 by (rule mult_left_mono)
  also have "\<dots> \<le> y * (1 + unit_roundoff) * M"
    using rhi M0 by (intro mult_right_mono) simp_all
  also have "\<dots> = raw * (1 + unit_roundoff)"
    using yM by (simp add: mult.commute mult.left_commute)
  also have "\<dots> \<le> up * E * (1 + unit_roundoff)"
    using rawb(2) u(2) by (rule mult_right_mono)
  also have "\<dots> = (1 + unit_roundoff) ^ 6 * E"
    by (simp add: up_def eval_nat_numeral)
  also have "\<dots> \<le> (1 + 1 / 2 ^ 49) * (1 - unit_roundoff) ^ 5 * E"
    using roundoff_ratio(1) E0 by (intro mult_right_mono) simp_all
  finally have "dn * (rnd y * D) \<le> dn * ((1 + 1 / 2 ^ 49) * E)"
    by (simp add: dn_def mult.commute mult.left_commute)
  moreover have "0 < dn" using dn by linarith
  ultimately have hi: "rnd y * D \<le> (1 + 1 / 2 ^ 49) * E"
    by (simp only: mult_le_cancel_left_pos)
  have "(1 - 1 / 2 ^ 49) * (1 + unit_roundoff) ^ 5 * E \<le> (1 - unit_roundoff) ^ 6 * E"
    using roundoff_ratio(2) E0 by (intro mult_right_mono) simp_all
  also have "\<dots> = dn * E * (1 - unit_roundoff)"
    by (simp add: dn_def eval_nat_numeral)
  also have "\<dots> \<le> raw * (1 - unit_roundoff)"
    using rawb(1) u(1) by (rule mult_right_mono)
  also have "\<dots> = y * (1 - unit_roundoff) * M"
    using yM by (simp add: mult.commute mult.left_commute)
  also have "\<dots> \<le> rnd y * M"
    using rlo M0 by (intro mult_right_mono) simp_all
  also have "\<dots> \<le> rnd y * (up * D)"
    using Mb(2) r0 by (rule mult_left_mono)
  finally have "up * ((1 - 1 / 2 ^ 49) * E) \<le> up * (rnd y * D)"
    by (simp add: up_def mult.commute mult.left_commute)
  moreover have "0 < up" using up1 by linarith
  ultimately have lo: "(1 - 1 / 2 ^ 49) * E \<le> rnd y * D"
    by (simp only: mult_le_cancel_left_pos)
  show "(1 - 1 / 2 ^ 49) * E \<le> rnd (raw / M) * D"
    and "rnd (raw / M) * D \<le> (1 + 1 / 2 ^ 49) * E"
    using lo hi by (simp_all add: y_def)
qed

subsection \<open>Evaluating binary64 arithmetic\<close>

lemma Let_fraction:
  "Let (numeral a / numeral b :: real) f = f (numeral a / numeral b)"
  "Let (- (numeral a / numeral b) :: real) f = f (- (numeral a / numeral b))"
  "Let (1 / numeral b :: real) f = f (1 / numeral b)"
  "Let (- (1 / numeral b) :: real) f = f (- (1 / numeral b))"
  by (simp_all add: Let_def)

lemma bitlen_numeral:
  "bitlen 1 = 1"
  "bitlen (numeral (Num.Bit0 n)) = bitlen (numeral n) + 1"
  "bitlen (numeral (Num.Bit1 n)) = bitlen (numeral n) + 1"
  "bitlen (numeral Num.One) = 1"
  by (subst compute_bitlen; simp)+

lemma to_double_zero: "to_double 0 = Finite 0"
  by (simp add: to_double_def rnd_def max_finite_def)

lemma to_double_mid:
  assumes "1 / 2 ^ 60 \<le> x" and "x \<le> 2 ^ 60"
  shows "to_double x = Finite (rnd x)"
proof -
  have "(2::real) powi (- 1022) \<le> 1 / 2 ^ 60"
    by (simp add: power_int_minus field_simps)
  moreover have "(2::real) ^ 60 \<le> 2 ^ 1023"
    by simp
  ultimately have "in_normal_range x"
    using assms unfolding in_normal_range_def by linarith
  then show ?thesis
    by (rule rnd_normal)
qed

lemmas fp_fast =
  lit_def to_double_zero to_double_mid rnd_def expo_def bitlen_numeral round_even_def
  Let_fraction dadd_def dmul_def ddiv_def dle_def dlt_def deq_def is_nonzero_def

subsection \<open>The error of the computed susceptibility\<close>

lemma overlay_bounds:
  fixes a b c d e :: real
  assumes "1 \<le> a" "a \<le> 5" "1 \<le> b" "b \<le> 5" "1 \<le> c" "c \<le> 5" "1 \<le> d" "d \<le> 5"
    "1 \<le> e" "e \<le> 5"
    and "0 \<le> w1" "0 \<le> w2" "0 \<le> w3" "0 \<le> w4" "0 \<le> w5"
  shows "w1 + w2 + w3 + w4 + w5 \<le> a * w1 + b * w2 + c * w3 + d * w4 + e * w5"
    and "a * w1 + b * w2 + c * w3 + d * w4 + e * w5 \<le> 5 * (w1 + w2 + w3 + w4 + w5)"
proof -
  have lo: "w1 \<le> a * w1" "w2 \<le> b * w2" "w3 \<le> c * w3" "w4 \<le> d * w4" "w5 \<le> e * w5"
    using assms by (simp_all add: mult_le_cancel_right1)
  have hi: "a * w1 \<le> 5 * w1" "b * w2 \<le> 5 * w2" "c * w3 \<le> 5 * w3" "d * w4 \<le> 5 * w4"
    "e * w5 \<le> 5 * w5"
    using assms by (simp_all add: mult_right_mono)
  show "w1 + w2 + w3 + w4 + w5 \<le> a * w1 + b * w2 + c * w3 + d * w4 + e * w5"
    using lo by linarith
  show "a * w1 + b * w2 + c * w3 + d * w4 + e * w5 \<le> 5 * (w1 + w2 + w3 + w4 + w5)"
    using hi unfolding distrib_left by linarith
qed

lemma valid_score_bounds:
  "valid_score p \<Longrightarrow> \<exists>a. p = Some (Finite a) \<and> 1 \<le> a \<and> a \<le> 5"
  by (auto simp: valid_score_def)

lemma ordinary_weight_finite:
  "ordinary_weight d \<Longrightarrow> \<exists>x. d = Finite x \<and> 0 \<le> x \<and> ordinary_weight (Finite x)"
proof (cases d)
  case (Finite x)
  assume "ordinary_weight d"
  with Finite ranged_weight[of x] show ?thesis
    by (simp add: ranged_def)
qed (simp_all add: ordinary_weight_def)

text \<open>
  The computed susceptibility of valid scores under ordinary weights: 0 when all
  weights are 0, and otherwise within 2^-49, relatively, of the exact quotient of the
  weighted sum by five times the sum of the weights.
\<close>

lemma susceptibility_error:
  assumes "valid_scores sc" and "ordinary_weights w"
  shows "\<exists>raw r. weighted w sc = Some (Finite raw) \<and> approx 5 raw (exact_raw w sc) \<and>
             susceptibility w sc = Some (Finite r) \<and>
             (if weight_sum w = 0 then r = 0
              else (1 - 1 / 2 ^ 49) * exact_raw w sc \<le> r * (5 * weight_sum w) \<and>
                   r * (5 * weight_sum w) \<le> (1 + 1 / 2 ^ 49) * exact_raw w sc) \<and>
             0 \<le> weight_sum w \<and> weight_sum w \<le> exact_raw w sc \<and>
             exact_raw w sc \<le> 5 * weight_sum w"
proof -
  from assms(1) obtain a b c d e where
    v: "slope_s sc = Some (Finite a)" "rough_s sc = Some (Finite b)"
       "lc_s sc = Some (Finite c)" "distWater_s sc = Some (Finite d)"
       "distRoad_s sc = Some (Finite e)"
    and r: "1 \<le> a" "a \<le> 5" "1 \<le> b" "b \<le> 5" "1 \<le> c" "c \<le> 5" "1 \<le> d" "d \<le> 5"
       "1 \<le> e" "e \<le> 5"
    unfolding valid_scores_def by (metis valid_score_bounds)
  from assms(2) obtain w1 w2 w3 w4 w5 where
    w: "slope w = Finite w1" "roughness w = Finite w2" "landcover w = Finite w3"
       "distWater w = Finite w4" "distRoad w = Finite w5"
    and nn: "0 \<le> w1" "0 \<le> w2" "0 \<le> w3" "0 \<le> w4" "0 \<le> w5"
    and ow: "ordinary_weight (Finite w1)" "ordinary_weight (Finite w2)"
       "ordinary_weight (Finite w3)" "ordinary_weight (Finite w4)"
       "ordinary_weight (Finite w5)"
    unfolding ordinary_weights_def by (metis ordinary_weight_finite)
  have eq: "sc = \<lparr>slope_s = Some (Finite a), rough_s = Some (Finite b),
                  lc_s = Some (Finite c), distWater_s = Some (Finite d),
                  distRoad_s = Some (Finite e)\<rparr>"
    using v by (cases sc) simp
  define E where "E = a * w1 + b * w2 + c * w3 + d * w4 + e * w5"
  define W where "W = w1 + w2 + w3 + w4 + w5"
  have E: "exact_raw w sc = E"
    by (simp add: exact_raw_def score_value_def value_of_def v w E_def)
  have W: "weight_sum w = W"
    by (simp add: weight_sum_def value_of_def w W_def)
  have W0: "0 \<le> W"
    using nn by (simp add: W_def)
  have b: "W \<le> E" "E \<le> 5 * W"
    using overlay_bounds[OF r nn] by (simp_all add: E_def W_def)
  from weighted_approx[OF ow r] obtain raw where
    raw: "dadd (dadd (dadd (dadd (dmul (Finite a) (Finite w1)) (dmul (Finite b) (Finite w2)))
                           (dmul (Finite c) (Finite w3)))
                     (dmul (Finite d) (Finite w4)))
               (dmul (Finite e) (Finite w5)) = Finite raw"
    and ra: "approx 5 raw E"
    unfolding E_def by blast
  from maxPossible_approx[OF ow] obtain M where
    M: "dmul (lit 5)
          (dadd (dadd (dadd (dadd (Finite w1) (Finite w2)) (Finite w3)) (Finite w4))
                (Finite w5)) = Finite M"
    and Ma: "approx 5 M (5 * W)"
    unfolding W_def by blast
  have s: "susceptibility w sc = Some (ddiv (Finite raw) (Finite M))"
    unfolding eq susceptibility_Some w raw M ..
  have wr: "weighted w sc = Some (Finite raw)"
    unfolding eq weighted_Some w raw ..
  show ?thesis
  proof (cases "W = 0")
    case True
    with Ma have "M = 0"
      by (simp add: approx_def)
    then have "susceptibility w sc = Some (Finite 0)"
      using s by (simp add: ddiv_def)
    with True b W0 wr ra show ?thesis
      by (simp add: E W)
  next
    case False
    with W0 have D: "0 < 5 * W" by simp
    have "5 * W / 5 \<le> E" using b(1) by simp
    from quotient_error[OF ra Ma D this b(2)]
    have M0: "0 < M" and fin: "to_double (raw / M) = Finite (rnd (raw / M))"
      and lo: "(1 - 1 / 2 ^ 49) * E \<le> rnd (raw / M) * (5 * W)"
      and hi: "rnd (raw / M) * (5 * W) \<le> (1 + 1 / 2 ^ 49) * E"
      by simp_all
    have "susceptibility w sc = Some (Finite (rnd (raw / M)))"
      using s M0 fin by (simp add: ddiv_def)
    with False lo hi b W0 wr ra show ?thesis
      by (simp add: E W)
  qed
qed

lemma approx5_abs:
  assumes "approx 5 x X" and "0 \<le> X"
  shows "\<bar>x - X\<bar> \<le> X / 2 ^ 50"
proof -
  have "(1 + unit_roundoff) ^ 5 \<le> 1 + 1 / 2 ^ 50" "1 - 1 / 2 ^ 50 \<le> (1 - unit_roundoff) ^ 5"
    by (simp_all add: unit_roundoff_def power_divide)
  note n = this
  have "(1 + unit_roundoff) ^ 5 * X \<le> (1 + 1 / 2 ^ 50) * X"
    using n(1) assms(2) by (rule mult_right_mono)
  moreover have "(1 - 1 / 2 ^ 50) * X \<le> (1 - unit_roundoff) ^ 5 * X"
    using n(2) assms(2) by (rule mult_right_mono)
  ultimately have "X - X / 2 ^ 50 \<le> x" "x \<le> X + X / 2 ^ 50"
    using assms(1) unfolding approx_def by (simp_all add: algebra_simps)
  then show ?thesis
    unfolding abs_le_iff by linarith
qed

lemma rnd_mono_binade:
  assumes "2 powi e \<le> x" and "x \<le> y" and "y < 2 powi (e + 1)" and "- 1022 \<le> e"
  shows "rnd x \<le> rnd y"
proof -
  have x: "rnd x = of_int (round_even (x / 2 powi (e - 52))) * 2 powi (e - 52)"
    using assms by (intro rnd_binade) simp_all
  have y: "rnd y = of_int (round_even (y / 2 powi (e - 52))) * 2 powi (e - 52)"
    using assms by (intro rnd_binade) simp_all
  have "x / 2 powi (e - 52) \<le> y / 2 powi (e - 52)"
    using assms(2) by (intro divide_right_mono) simp_all
  then have "round_even (x / 2 powi (e - 52)) \<le> round_even (y / 2 powi (e - 52))"
    by (rule round_even_mono)
  then show ?thesis
    unfolding x y by (intro mult_right_mono) simp_all
qed

text \<open>
  The largest quotient s / fl(5 s) can be is 1 / (5 (1 - u)), and that still rounds to
  the double nearest to 0.2.
\<close>

lemma rnd_fifth_upper: "rnd (1 / (5 * (1 - unit_roundoff))) = value_of (lit 0.2)"
  unfolding lit_fraction_values by (simp add: unit_roundoff_def value_of_def fp_fast)

lemma exact_raw_all_scores:
  "exact_raw w (all_scores k) = k * weight_sum w"
  by (simp add: exact_raw_def all_scores_def score_value_def weight_sum_def algebra_simps)

lemma valid_all_scores: "valid_scores (all_scores 1)" "valid_scores (all_scores 5)"
  by (simp_all add: valid_scores_def valid_score_def all_scores_def)

text \<open>Five equal scores k: the exact quotient is k / 5.\<close>

lemma overlay_bounds_all:
  assumes "ordinary_weights w" and "0 < weight_sum w" and "valid_scores (all_scores k)"
  shows "\<exists>r. susceptibility w (all_scores k) = Some (Finite r) \<and>
             \<bar>r - k / 5\<bar> \<le> k / 5 / 2 ^ 49"
proof -
  from susceptibility_error[OF assms(3,1)] assms(2) obtain r where
    s: "susceptibility w (all_scores k) = Some (Finite r)"
    and lo: "(1 - 1 / 2 ^ 49) * (k * weight_sum w) \<le> r * (5 * weight_sum w)"
    and hi: "r * (5 * weight_sum w) \<le> (1 + 1 / 2 ^ 49) * (k * weight_sum w)"
    by (auto simp: exact_raw_all_scores)
  define W where "W = weight_sum w"
  have W: "0 < W" using assms(2) by (simp add: W_def)
  have "((1 - 1 / 2 ^ 49) * k) * W \<le> (r * 5) * W"
    using lo by (simp add: W_def mult.assoc)
  then have l: "(1 - 1 / 2 ^ 49) * k \<le> r * 5"
    using W by (simp only: mult_le_cancel_right_pos)
  have "(r * 5) * W \<le> ((1 + 1 / 2 ^ 49) * k) * W"
    using hi by (simp add: W_def mult.assoc)
  then have h: "r * 5 \<le> (1 + 1 / 2 ^ 49) * k"
    using W by (simp only: mult_le_cancel_right_pos)
  have "\<bar>r - k / 5\<bar> \<le> k / 5 / 2 ^ 49"
    using l h unfolding abs_le_iff by (simp add: algebra_simps)
  with s show ?thesis by blast
qed

text \<open>
  Five scores of 1 under representable ordinary weights: the weighted sum is the very
  sum of the weights that the maximum is computed from, and the quotient never rounds
  above the double nearest to 0.2.
\<close>

lemma all_ones_at_most_fifth:
  assumes "ordinary_weights w" and "representable_weights w" and "0 < weight_sum w"
  shows "\<exists>r. susceptibility w (all_scores 1) = Some (Finite r) \<and> r \<le> value_of (lit 0.2)"
proof -
  from assms(1) obtain w1 w2 w3 w4 w5 where
    w: "slope w = Finite w1" "roughness w = Finite w2" "landcover w = Finite w3"
       "distWater w = Finite w4" "distRoad w = Finite w5"
    and ow: "ordinary_weight (Finite w1)" "ordinary_weight (Finite w2)"
       "ordinary_weight (Finite w3)" "ordinary_weight (Finite w4)"
       "ordinary_weight (Finite w5)"
    unfolding ordinary_weights_def by (metis ordinary_weight_finite)
  have rep: "to_double w1 = Finite w1" "to_double w2 = Finite w2" "to_double w3 = Finite w3"
    "to_double w4 = Finite w4" "to_double w5 = Finite w5"
    using assms(2) by (simp_all add: representable_weights_def representable_def w)
  define W where "W = w1 + w2 + w3 + w4 + w5"
  have W: "weight_sum w = W"
    by (simp add: weight_sum_def value_of_def w W_def)
  from weight_chain_approx[OF ow] obtain s where
    s: "dadd (dadd (dadd (dadd (Finite w1) (Finite w2)) (Finite w3)) (Finite w4))
             (Finite w5) = Finite s"
    and sa: "approx 4 s W" and rg: "ranged 5 W"
    unfolding W_def by blast
  note m = max_from_sum[OF sa rg]
  define M where "M = rnd (5 * s)"
  have u: "0 < 1 - unit_roundoff" "0 < 1 + unit_roundoff" "1 + unit_roundoff \<le> 8 / 5"
    by (simp_all add: unit_roundoff_def)
  have s0: "0 < s"
  proof -
    have "0 < (1 - unit_roundoff) ^ 4 * W"
      using u(1) assms(3) W by simp
    with sa show ?thesis
      unfolding approx_def by linarith
  qed
  have Mb: "5 * s * (1 - unit_roundoff) \<le> M" "M \<le> 5 * s * (1 + unit_roundoff)"
    using rnd_normal(2,3)[OF m(3)] by (simp_all add: M_def)
  have M0: "0 < M"
  proof -
    have "0 < 5 * s * (1 - unit_roundoff)" using s0 u(1) by simp
    with Mb(1) show ?thesis by linarith
  qed
  define y where "y = s / M"
  have yhi: "y \<le> 1 / (5 * (1 - unit_roundoff))"
  proof -
    have "s / M \<le> s / (5 * s * (1 - unit_roundoff))"
      using Mb(1) s0 u(1) M0 by (intro divide_left_mono) simp_all
    then show ?thesis
      using s0 by (simp add: y_def)
  qed
  have ylo: "1 / 8 \<le> y"
  proof -
    have "M \<le> 8 * s"
    proof -
      have "5 * s * (1 + unit_roundoff) \<le> 5 * s * (8 / 5)"
        using u(3) s0 by (intro mult_left_mono) simp_all
      with Mb(2) show ?thesis by simp
    qed
    then have "s / (8 * s) \<le> s / M"
      using s0 M0 by (intro divide_left_mono) simp_all
    then show ?thesis
      using s0 by (simp add: y_def)
  qed
  have top: "1 / (5 * (1 - unit_roundoff)) < (2::real) powi (- 3 + 1)"
    by (simp add: unit_roundoff_def power_int_minus)
  have bot: "(2::real) powi (- 3) \<le> y"
    using ylo by (simp add: power_int_minus)
  have "rnd y \<le> rnd (1 / (5 * (1 - unit_roundoff)))"
    using bot yhi top by (rule rnd_mono_binade) simp
  then have r: "rnd y \<le> value_of (lit 0.2)"
    by (simp only: rnd_fifth_upper)
  have nr: "in_normal_range y"
  proof -
    have "(2::real) powi (- 1022) \<le> 2 powi (- 3)"
      by (intro power_int_increasing) simp_all
    moreover have "y \<le> 2 ^ 1023"
    proof -
      have "(2::real) powi (- 3 + 1) \<le> 2 ^ 1023"
        by (simp add: power_int_minus)
      with yhi top show ?thesis by linarith
    qed
    ultimately show ?thesis
      using bot unfolding in_normal_range_def by linarith
  qed
  have p: "dmul (Finite 1) (Finite w1) = Finite w1" "dmul (Finite 1) (Finite w2) = Finite w2"
    "dmul (Finite 1) (Finite w3) = Finite w3" "dmul (Finite 1) (Finite w4) = Finite w4"
    "dmul (Finite 1) (Finite w5) = Finite w5"
    by (simp_all add: dmul_def rep)
  have "susceptibility w (all_scores 1) = Some (ddiv (Finite s) (Finite M))"
    unfolding all_scores_def susceptibility_Some w p s m(1) M_def ..
  then have "susceptibility w (all_scores 1) = Some (Finite (rnd y))"
    using M0 rnd_normal(1)[OF nr] by (simp add: ddiv_def y_def)
  with r show ?thesis by blast
qed

subsection \<open>The configured weights and the example weight vectors\<close>

lemma weights_ordinary: "ordinary_weights weights" "representable_weights weights"
  "weight_sum weights = value_of (lit 0.45) + value_of (lit 0.15) + value_of (lit 0.2)
     + value_of (lit 0.1) + value_of (lit 0.1)"
  unfolding weights_def lit_fraction_values
  by (simp_all add: ordinary_weights_def ordinary_weight_def representable_weights_def
        representable_def weight_sum_def value_of_def power_int_minus fp_fast)

lemma maxPossible_weights: "maxPossible weights = Finite 5"
  unfolding weights_def maxPossible_def lit_fraction_values lit_int_values
  by (simp add: fp_fast)

lemma weights_all_ones: "susceptibility weights (all_scores 1) = Some (lit 0.2)"
  unfolding susceptibility_def maxPossible_weights
  unfolding weights_def all_scores_def weighted_Some lit_fraction_values
  by (simp add: divide_img_def binop_def fp_fast)

lemma weights_all_fives: "susceptibility weights (all_scores 5) = Some (Finite 1)"
  unfolding susceptibility_def maxPossible_weights
  unfolding weights_def all_scores_def weighted_Some lit_fraction_values
  by (simp add: divide_img_def binop_def fp_fast)

lemma skewed_all_fives:
  "susceptibility skewed_weights (all_scores 5) = Some (lit 1.0000000000000002)"
  unfolding skewed_weights_def all_scores_def susceptibility_Some lit_fraction_values
    lit_int_values
  by (simp add: fp_fast)

lemma tenths_all_ones:
  "susceptibility tenths_weights (all_scores 1) = Some (lit 0.19999999999999998)"
  unfolding tenths_weights_def all_scores_def susceptibility_Some lit_fraction_values
    lit_int_values
  by (simp add: fp_fast)

lemma zero_weights_value: "susceptibility zero_weights sc' = Some (Finite 0)"
  if "sc' = all_scores 1 \<or> sc' = all_scores 5"
  using that unfolding zero_weights_def all_scores_def lit_int_values
  by (auto simp: susceptibility_Some fp_fast)

lemma example_literals:
  "lit 1.0000000000000002 = Finite (1 + 1 / 2 ^ 52)"
  "lit 0.19999999999999998 = Finite (1 / 5 - 3 / (5 * 2 ^ 55))"
  by (simp_all add: fp_fast)

text \<open>
  Rounding can move a cell into the next class: with the configured weights the scores
  3, 3, 3, 2, 4 have the exact susceptibility 0.6, whose double has the class 3, and the
  computed one is 0.6000000000000001, class 4.
\<close>

lemma rounding_changes_class:
  "susceptibility weights
     \<lparr>slope_s = Some (Finite 3), rough_s = Some (Finite 3), lc_s = Some (Finite 3),
      distWater_s = Some (Finite 2), distRoad_s = Some (Finite 4)\<rparr>
     = Some (lit 0.6000000000000001)"
  "susClass (Some (lit 0.6000000000000001)) = Some (Finite 4)"
  "susClass (Some (lit 0.6)) = Some (Finite 3)"
proof -
  have v: "lit 0.6000000000000001 = Finite (5404319552844596 / 9007199254740992)"
    by (simp add: fp_fast)
  have w: "weighted weights
     \<lparr>slope_s = Some (Finite 3), rough_s = Some (Finite 3), lc_s = Some (Finite 3),
      distWater_s = Some (Finite 2), distRoad_s = Some (Finite 4)\<rparr>
     = Some (Finite (6755399441055745 / 2251799813685248))"
    unfolding weights_def weighted_Some lit_fraction_values by (simp add: fp_fast)
  show "susceptibility weights
     \<lparr>slope_s = Some (Finite 3), rough_s = Some (Finite 3), lc_s = Some (Finite 3),
      distWater_s = Some (Finite 2), distRoad_s = Some (Finite 4)\<rparr>
     = Some (lit 0.6000000000000001)"
    unfolding susceptibility_def maxPossible_weights w v
    by (simp add: divide_img_def binop_def fp_fast)
  show "susClass (Some (lit 0.6000000000000001)) = Some (Finite 4)"
    "susClass (Some (lit 0.6)) = Some (Finite 3)"
    unfolding v susClass_table lit_fraction_values by (simp_all add: value_of_def)
qed

subsection \<open>Weights near the overflow threshold\<close>

lemma round_even_of_int: "round_even (of_int n) = n"
  by (simp add: round_even_def)

lemma to_double_overflow:
  assumes "2 ^ 1025 \<le> x"
  shows "to_double x = PInf"
proof -
  have "(2::real) powi (- 1022) \<le> 2 ^ 1025"
    by (simp add: power_int_minus field_simps)
  with assms have "2 powi (- 1022) \<le> x" by linarith
  from rnd_rel_error[OF this] have "x - x * unit_roundoff \<le> rnd x"
    unfolding abs_le_iff by linarith
  moreover have "2 ^ 1025 * (1 - unit_roundoff) \<le> x * (1 - unit_roundoff)"
    using assms by (intro mult_right_mono) (simp_all add: unit_roundoff_def)
  moreover have "max_finite < 2 ^ 1025 * (1 - unit_roundoff)"
    by (simp add: max_finite_def unit_roundoff_def)
  ultimately have "max_finite < rnd x"
    by (simp add: algebra_simps)
  then show ?thesis
    by (simp add: to_double_def Let_def)
qed

lemma to_double_top_binade: "to_double (2 ^ 1023) = Finite (2 ^ 1023)"
proof -
  have "rnd (2 ^ 1023) =
          of_int (round_even (2 ^ 1023 / 2 powi (1023 - 52))) * 2 powi (1023 - 52)"
    by (rule rnd_binade) simp_all
  also have "(2::real) ^ 1023 / 2 powi (1023 - 52) = of_int (2 ^ 52)"
    by simp
  finally have "rnd (2 ^ 1023) = 2 ^ 1023"
    unfolding round_even_of_int by simp
  then show ?thesis
    by (simp add: to_double_def max_finite_def)
qed

lemma overflow_chain:
  assumes "to_double t = Finite t" and "to_double (5 * t) = PInf"
  shows "susceptibility
           \<lparr>slope = Finite t, roughness = Finite 0, landcover = Finite 0,
            distWater = Finite 0, distRoad = Finite 0\<rparr> (all_scores 1) = Some (Finite 0)"
proof -
  have m: "dmul (Finite 1) (Finite t) = Finite t"
    "dmul (Finite 1) (Finite 0) = Finite 0"
    "dadd (Finite t) (Finite 0) = Finite t"
    by (simp_all add: dmul_def dadd_def assms(1) to_double_zero)
  have M: "dmul (lit 5) (Finite t) = PInf"
    unfolding lit_int_values by (simp add: dmul_def assms(2))
  show ?thesis
    unfolding all_scores_def susceptibility_Some
    by (simp add: m M ddiv_def)
qed

text \<open>
  One weight of 2^1023 and four of 0, all scores 1: the weighted sum is 2^1023, five
  times the sum of the weights overflows to infinity, and the susceptibility is 0.
\<close>

lemma overflow_gives_zero:
  "susceptibility
     \<lparr>slope = Finite (2 ^ 1023), roughness = Finite 0, landcover = Finite 0,
      distWater = Finite 0, distRoad = Finite 0\<rparr> (all_scores 1) = Some (Finite 0)"
  by (rule overflow_chain[OF to_double_top_binade to_double_overflow]) simp

section \<open>The claims\<close>

subsection \<open>The range of the susceptibility\<close>

text \<open>
  C1, as the script has it. For five scores in 1..5 and weights that are each 0 or of
  ordinary size, the overlay computes the weighted sum of the scores and divides it by
  five times the sum of the weights, each within rounding of its exact value: the
  weighted sum within 2^-50, relatively, and the susceptibility within 2^-49 of the
  exact quotient. The susceptibility is at least 0 and at most 1 + 2^-49, and it is 0
  when every weight is 0 (the platform's division by 0).
\<close>

theorem overlay_near_unit_interval:
  assumes "valid_scores sc" and "ordinary_weights w"
  shows "\<exists>raw r. weighted w sc = Some (Finite raw) \<and>
           \<bar>raw - exact_raw w sc\<bar> \<le> exact_raw w sc / 2 ^ 50 \<and>
           susceptibility w sc = Some (Finite r) \<and> 0 \<le> r \<and> r \<le> 1 + 1 / 2 ^ 49 \<and>
           (if weight_sum w = 0 then r = 0
            else \<bar>r - exact_raw w sc / (5 * weight_sum w)\<bar>
                 \<le> exact_raw w sc / (5 * weight_sum w) / 2 ^ 49)"
proof -
  from susceptibility_error[OF assms] obtain raw r where
    wr: "weighted w sc = Some (Finite raw)" and ra: "approx 5 raw (exact_raw w sc)"
    and s: "susceptibility w sc = Some (Finite r)"
    and e: "if weight_sum w = 0 then r = 0
            else (1 - 1 / 2 ^ 49) * exact_raw w sc \<le> r * (5 * weight_sum w) \<and>
                 r * (5 * weight_sum w) \<le> (1 + 1 / 2 ^ 49) * exact_raw w sc"
    and b: "0 \<le> weight_sum w" "weight_sum w \<le> exact_raw w sc"
       "exact_raw w sc \<le> 5 * weight_sum w"
    by blast
  have E0: "0 \<le> exact_raw w sc"
    using b by linarith
  have rawe: "\<bar>raw - exact_raw w sc\<bar> \<le> exact_raw w sc / 2 ^ 50"
    using ra E0 by (rule approx5_abs)
  show ?thesis
  proof (cases "weight_sum w = 0")
    case True
    with e wr rawe s show ?thesis by simp
  next
    case False
    define D where "D = 5 * weight_sum w"
    define E where "E = exact_raw w sc"
    have D: "0 < D" using False b(1) by (simp add: D_def)
    have lo: "(1 - 1 / 2 ^ 49) * E \<le> r * D" and hi: "r * D \<le> (1 + 1 / 2 ^ 49) * E"
      using e False by (simp_all add: D_def E_def)
    have ED: "E \<le> D" "0 \<le> E"
      using b E0 by (simp_all add: D_def E_def)
    have r1: "r \<le> (1 + 1 / 2 ^ 49) * (E / D)"
      using hi D by (simp add: pos_le_divide_eq)
    have r2: "(1 - 1 / 2 ^ 49) * (E / D) \<le> r"
      using lo D by (simp add: pos_divide_le_eq)
    have q: "0 \<le> E / D" "E / D \<le> 1"
      using ED D by simp_all
    have "(1 + 1 / 2 ^ 49) * (E / D) \<le> 1 + 1 / 2 ^ 49"
      using q(2) by (simp add: mult_le_cancel_left1)
    with r1 have up: "r \<le> 1 + 1 / 2 ^ 49" by linarith
    have "0 \<le> (1 - 1 / 2 ^ 49) * (E / D)"
      using q(1) by simp
    with r2 have r0: "0 \<le> r" by linarith
    have "\<bar>r - E / D\<bar> \<le> E / D / 2 ^ 49"
      using r1 r2 unfolding abs_le_iff by (simp add: algebra_simps)
    with False wr rawe s r0 up show ?thesis
      by (simp add: D_def E_def)
  qed
qed

theorem overlay_near_unit_interval_witness:
  "\<exists>raw r. weighted weights (all_scores 5) = Some (Finite raw) \<and>
     \<bar>raw - exact_raw weights (all_scores 5)\<bar> \<le> exact_raw weights (all_scores 5) / 2 ^ 50 \<and>
     susceptibility weights (all_scores 5) = Some (Finite r) \<and> 0 \<le> r \<and>
     r \<le> 1 + 1 / 2 ^ 49 \<and>
     (if weight_sum weights = 0 then r = 0
      else \<bar>r - exact_raw weights (all_scores 5) / (5 * weight_sum weights)\<bar>
           \<le> exact_raw weights (all_scores 5) / (5 * weight_sum weights) / 2 ^ 49)"
  by (rule overlay_near_unit_interval[OF valid_all_scores(2) weights_ordinary(1)])

text \<open>
  With the non-negative weights 0.05, 0.05, 0.1, 0.7, 0.1 and five scores of 5 the
  susceptibility is 1.0000000000000002, above 1.
\<close>

theorem overlay_above_one_counterexample:
  "valid_scores (all_scores 5) \<and> nonneg_weights skewed_weights \<and>
   susceptibility skewed_weights (all_scores 5) = Some (Finite (1 + 1 / 2 ^ 52)) \<and>
   (1::real) < 1 + 1 / 2 ^ 52"
proof -
  have "nonneg_weights skewed_weights"
    unfolding skewed_weights_def lit_fraction_values
    by (simp add: nonneg_weights_def dle_def)
  then show ?thesis
    using skewed_all_fives[unfolded example_literals] by (simp add: valid_all_scores)
qed

text \<open>
  C10, as the script has it. For five scores in 1..5 and weights of ordinary size that
  are not all 0, the susceptibility is at least 1/5 - 2^-51 and at most 1 + 2^-49, and
  its class is one of 1..5, never the initial 0.
\<close>

theorem susceptibility_near_fifth:
  assumes "valid_scores sc" and "ordinary_weights w" and "0 < weight_sum w"
  shows "\<exists>r. susceptibility w sc = Some (Finite r) \<and> 1 / 5 - 1 / 2 ^ 51 \<le> r \<and>
           r \<le> 1 + 1 / 2 ^ 49 \<and>
           valid_score (susClass (susceptibility w sc)) \<and>
           susClass (susceptibility w sc) \<noteq> Some (Finite 0)"
proof -
  from susceptibility_error[OF assms(1,2)] assms(3) obtain r where
    s: "susceptibility w sc = Some (Finite r)"
    and lo: "(1 - 1 / 2 ^ 49) * exact_raw w sc \<le> r * (5 * weight_sum w)"
    and hi: "r * (5 * weight_sum w) \<le> (1 + 1 / 2 ^ 49) * exact_raw w sc"
    and b: "weight_sum w \<le> exact_raw w sc" "exact_raw w sc \<le> 5 * weight_sum w"
    by auto
  define W where "W = weight_sum w"
  have W: "0 < W" using assms(3) by (simp add: W_def)
  have "(1 - 1 / 2 ^ 49) * W \<le> (1 - 1 / 2 ^ 49) * exact_raw w sc"
    using b(1) by (intro mult_left_mono) (simp_all add: W_def)
  with lo have "(1 - 1 / 2 ^ 49) * W \<le> r * 5 * W"
    by (simp add: W_def mult.assoc)
  then have "1 - 1 / 2 ^ 49 \<le> r * 5"
    using W by simp
  then have r1: "1 / 5 - 1 / 2 ^ 51 \<le> r"
    by simp
  have "(1 + 1 / 2 ^ 49) * exact_raw w sc \<le> (1 + 1 / 2 ^ 49) * (5 * W)"
    using b(2) by (intro mult_left_mono) (simp_all add: W_def)
  with hi have "r * (5 * W) \<le> (1 + 1 / 2 ^ 49) * (5 * W)"
    by (simp add: W_def)
  then have r2: "r \<le> 1 + 1 / 2 ^ 49"
    using W by simp
  have v: "valid_score (susClass (Some (Finite r)))"
    by (rule valid_score_table)
  then have "susClass (Some (Finite r)) \<noteq> Some (Finite 0)"
    by (auto simp: valid_score_def)
  with s r1 r2 v show ?thesis by simp
qed

theorem susceptibility_near_fifth_witness:
  "\<exists>r. susceptibility weights (all_scores 1) = Some (Finite r) \<and> 1 / 5 - 1 / 2 ^ 51 \<le> r \<and>
     r \<le> 1 + 1 / 2 ^ 49 \<and>
     valid_score (susClass (susceptibility weights (all_scores 1))) \<and>
     susClass (susceptibility weights (all_scores 1)) \<noteq> Some (Finite 0)"
proof -
  have "0 < weight_sum weights"
    unfolding weights_ordinary(3) lit_fraction_values by (simp add: value_of_def)
  with valid_all_scores(1) weights_ordinary(1) show ?thesis
    by (rule susceptibility_near_fifth)
qed

text \<open>
  With the non-negative weights 0.1, 0.1, 0.1, 0.2, 0.1, whose sum is positive, and
  five scores of 1 the susceptibility is 0.19999999999999998, below 1/5.
\<close>

theorem susceptibility_below_fifth_counterexample:
  "valid_scores (all_scores 1) \<and> nonneg_weights tenths_weights \<and>
   0 < weight_sum tenths_weights \<and>
   susceptibility tenths_weights (all_scores 1) = Some (Finite (1 / 5 - 3 / (5 * 2 ^ 55))) \<and>
   1 / 5 - 3 / (5 * 2 ^ 55) < (1 / 5 :: real)"
proof -
  have "nonneg_weights tenths_weights \<and> 0 < weight_sum tenths_weights"
    unfolding tenths_weights_def lit_fraction_values
    by (simp add: nonneg_weights_def dle_def weight_sum_def value_of_def)
  then show ?thesis
    using tenths_all_ones[unfolded example_literals] by (simp add: valid_all_scores)
qed

subsection \<open>The classes\<close>

text \<open>
  C3, as the script has it. Every unmasked finite susceptibility fires exactly one rule
  of the class chain and gets that rule's class, one of 1..5; a value on a breakpoint
  gets the lower class (0.2 gives 1, 0.2000001 gives 2). With the configured weights,
  five scores of 1 give the susceptibility 0.2 (the double) and the class 1, and five
  scores of 5 give 1 and the class 5. With any representable weights of ordinary size
  that are not all 0, five scores of 1 give a susceptibility within 2^-51 of 1/5 and
  the class 1, and five scores of 5 give one within 2^-49 of 1 and the class 5.
\<close>

theorem susClass_partition:
  "(\<exists>v. map snd (filter fires (class_rules (Some (Finite x)))) = [Some (Finite v)] \<and>
        susClass (Some (Finite x)) = Some (Finite v) \<and> v \<in> {1, 2, 3, 4, 5}) \<and>
   susClass (Some (Finite 0.2)) = Some (Finite 1) \<and>
   susClass (Some (lit 0.2)) = Some (Finite 1) \<and>
   susClass (Some (Finite 0.2000001)) = Some (Finite 2) \<and>
   susClass (Some (lit 0.4)) = Some (Finite 2) \<and>
   susClass (Some (lit 0.6)) = Some (Finite 3) \<and>
   susClass (Some (lit 0.8)) = Some (Finite 4) \<and>
   susClass (Some (Finite 0)) = Some (Finite 1) \<and>
   susClass (Some (Finite 1)) = Some (Finite 5) \<and>
   susceptibility weights (all_scores 1) = Some (lit 0.2) \<and>
   susClass (susceptibility weights (all_scores 1)) = Some (Finite 1) \<and>
   susceptibility weights (all_scores 5) = Some (Finite 1) \<and>
   susClass (susceptibility weights (all_scores 5)) = Some (Finite 5) \<and>
   (ordinary_weights w \<and> representable_weights w \<and> 0 < weight_sum w \<longrightarrow>
      (\<exists>r. susceptibility w (all_scores 1) = Some (Finite r) \<and> \<bar>r - 1 / 5\<bar> \<le> 1 / 2 ^ 51) \<and>
      susClass (susceptibility w (all_scores 1)) = Some (Finite 1) \<and>
      (\<exists>r. susceptibility w (all_scores 5) = Some (Finite r) \<and> \<bar>r - 1\<bar> \<le> 1 / 2 ^ 49) \<and>
      susClass (susceptibility w (all_scores 5)) = Some (Finite 5))"
proof -
  have chain: "\<exists>v. map snd (filter fires (class_rules (Some (Finite x)))) = [Some (Finite v)] \<and>
        susClass (Some (Finite x)) = Some (Finite v) \<and> v \<in> {1, 2, 3, 4, 5}"
    unfolding class_fired susClass_table by simp
  have points: "susClass (Some (Finite 0.2)) = Some (Finite 1)"
    "susClass (Some (lit 0.2)) = Some (Finite 1)"
    "susClass (Some (Finite 0.2000001)) = Some (Finite 2)"
    "susClass (Some (lit 0.4)) = Some (Finite 2)"
    "susClass (Some (lit 0.6)) = Some (Finite 3)"
    "susClass (Some (lit 0.8)) = Some (Finite 4)"
    "susClass (Some (Finite 0)) = Some (Finite 1)"
    "susClass (Some (Finite 1)) = Some (Finite 5)"
    unfolding lit_fraction_values susClass_table by (simp_all add: value_of_def)
  have general: "(\<exists>r. susceptibility w (all_scores 1) = Some (Finite r) \<and>
        \<bar>r - 1 / 5\<bar> \<le> 1 / 2 ^ 51) \<and>
      susClass (susceptibility w (all_scores 1)) = Some (Finite 1) \<and>
      (\<exists>r. susceptibility w (all_scores 5) = Some (Finite r) \<and> \<bar>r - 1\<bar> \<le> 1 / 2 ^ 49) \<and>
      susClass (susceptibility w (all_scores 5)) = Some (Finite 5)"
    if ow: "ordinary_weights w" and rw: "representable_weights w" and pos: "0 < weight_sum w"
  proof -
    from overlay_bounds_all[OF ow pos, of 1] obtain r1 where
      s1: "susceptibility w (all_scores 1) = Some (Finite r1)"
      and e1: "\<bar>r1 - 1 / 5\<bar> \<le> 1 / 5 / 2 ^ 49"
      by (auto simp: valid_all_scores)
    from all_ones_at_most_fifth[OF ow rw pos] s1 have "r1 \<le> value_of (lit 0.2)"
      by simp
    then have c1: "susClass (Some (Finite r1)) = Some (Finite 1)"
      unfolding susClass_table by simp
    from overlay_bounds_all[OF ow pos, of 5] obtain r5 where
      s5: "susceptibility w (all_scores 5) = Some (Finite r5)"
      and e5: "\<bar>r5 - 5 / 5\<bar> \<le> 5 / 5 / 2 ^ 49"
      by (auto simp: valid_all_scores)
    have "1 - 1 / 2 ^ 49 \<le> r5"
      using e5 unfolding abs_le_iff by simp
    moreover have "value_of (lit 0.8) < 1 - 1 / 2 ^ 49"
      unfolding lit_fraction_values by (simp add: value_of_def)
    ultimately have "value_of (lit 0.8) < r5"
      by linarith
    moreover have "value_of (lit 0.2) < value_of (lit 0.8)"
      "value_of (lit 0.4) < value_of (lit 0.8)" "value_of (lit 0.6) < value_of (lit 0.8)"
      unfolding lit_fraction_values by (simp_all add: value_of_def)
    ultimately have c5: "susClass (Some (Finite r5)) = Some (Finite 5)"
      unfolding susClass_table by simp
    have "\<bar>r1 - 1 / 5\<bar> \<le> 1 / 2 ^ 51"
      using e1 by simp
    with s1 c1 s5 c5 e5 show ?thesis
      by simp
  qed
  show ?thesis
    using chain points general
    by (simp add: weights_all_ones weights_all_fives del: abs_diff_le_iff)
qed

theorem susClass_partition_witness:
  "(\<exists>r. susceptibility weights (all_scores 1) = Some (Finite r) \<and> \<bar>r - 1 / 5\<bar> \<le> 1 / 2 ^ 51) \<and>
   susClass (susceptibility weights (all_scores 1)) = Some (Finite 1) \<and>
   (\<exists>r. susceptibility weights (all_scores 5) = Some (Finite r) \<and> \<bar>r - 1\<bar> \<le> 1 / 2 ^ 49) \<and>
   susClass (susceptibility weights (all_scores 5)) = Some (Finite 5)"
proof -
  have "0 < weight_sum weights"
    unfolding weights_ordinary(3) lit_fraction_values by (simp add: value_of_def)
  with susClass_partition[of 0 weights] weights_ordinary(1,2) show ?thesis
    by blast
qed

text \<open>
  With every weight 0, five scores of 5 give the susceptibility 0 and the class 1, not
  1 and the class 5, and five scores of 1 give 0, not 0.2. With the weights 0.1, 0.1,
  0.1, 0.2, 0.1 five scores of 1 give 0.19999999999999998, which is not the double
  0.2.
\<close>

theorem all_scores_counterexample:
  "susceptibility zero_weights (all_scores 5) = Some (Finite 0) \<and>
   susClass (susceptibility zero_weights (all_scores 5)) = Some (Finite 1) \<and>
   susceptibility zero_weights (all_scores 1) = Some (Finite 0) \<and>
   susceptibility tenths_weights (all_scores 1) = Some (Finite (1 / 5 - 3 / (5 * 2 ^ 55))) \<and>
   Finite (1 / 5 - 3 / (5 * 2 ^ 55)) \<noteq> lit 0.2"
  using tenths_all_ones[unfolded example_literals]
  by (simp add: zero_weights_value susClass_table lit_reduced_values value_of_def)

subsection \<open>The scores\<close>

text \<open>
  C2. Every unmasked slope, roughness, distance-to-water and distance-to-road value
  fires exactly one rule of its where-chain, and the chain's result is that rule's value,
  one of 1..5. A value on a breakpoint falls to the lower interval: slope 5 scores 1 and
  slope 5.0001 scores 2.
\<close>

theorem where_chain_exactly_one_score:
  "(\<exists>v. map snd (filter fires (slope_rules (Some (Finite x)))) = [Some (Finite v)] \<and>
        slopeScore (Some (Finite x)) = Some (Finite v) \<and> v \<in> {1, 2, 3, 4, 5}) \<and>
   (\<exists>v. map snd (filter fires (rough_rules (Some (Finite y)))) = [Some (Finite v)] \<and>
        roughScore (Some (Finite y)) = Some (Finite v) \<and> v \<in> {1, 2, 3, 4, 5}) \<and>
   (\<exists>v. map snd (filter fires (distWater_rules (Some (Finite z)))) = [Some (Finite v)] \<and>
        distWaterScore (Some (Finite z)) = Some (Finite v) \<and> v \<in> {1, 2, 3, 4, 5}) \<and>
   (\<exists>v. map snd (filter fires (distRoad_rules (Some (Finite u)))) = [Some (Finite v)] \<and>
        distRoadScore (Some (Finite u)) = Some (Finite v) \<and> v \<in> {1, 2, 3, 4, 5}) \<and>
   slopeScore (Some (Finite 5)) = Some (Finite 1) \<and>
   slopeScore (Some (Finite 5.0001)) = Some (Finite 2) \<and>
   slopeScore (Some (Finite 15)) = Some (Finite 2) \<and>
   slopeScore (Some (Finite 25)) = Some (Finite 3) \<and>
   slopeScore (Some (Finite 35)) = Some (Finite 4) \<and>
   roughScore (Some (Finite 1)) = Some (Finite 1) \<and>
   roughScore (Some (Finite 3)) = Some (Finite 2) \<and>
   roughScore (Some (Finite 6)) = Some (Finite 3) \<and>
   roughScore (Some (Finite 12)) = Some (Finite 4)"
  by (simp add: slope_fired rough_fired distWater_fired distRoad_fired
        slopeScore_table roughScore_table distWaterScore_table distRoadScore_table)

text \<open>
  C4. The scenario of the spec: slope 10, roughness 2, shrubland (class 20), 300 m to
  water and 60 m to a road score 2, 2, 3, 2 and 4; with the configured weights the
  weighted sum is 2.4, the maximum possible 5, the susceptibility 0.48 (each the double
  of that name) and the class 3.
\<close>

theorem scenario_shrub_slope10:
  "score_cell (Some (Finite 10)) (Some (Finite 2)) (Some (Finite 20)) (Some (Finite 300))
     (Some (Finite 60)) =
     \<lparr>slope_s = Some (Finite 2), rough_s = Some (Finite 2), lc_s = Some (Finite 3),
      distWater_s = Some (Finite 2), distRoad_s = Some (Finite 4)\<rparr> \<and>
   weighted weights
     (score_cell (Some (Finite 10)) (Some (Finite 2)) (Some (Finite 20)) (Some (Finite 300))
        (Some (Finite 60))) = Some (lit 2.4) \<and>
   maxPossible weights = Finite 5 \<and>
   susceptibility weights
     (score_cell (Some (Finite 10)) (Some (Finite 2)) (Some (Finite 20)) (Some (Finite 300))
        (Some (Finite 60))) = Some (lit 0.48) \<and>
   susClass (susceptibility weights
     (score_cell (Some (Finite 10)) (Some (Finite 2)) (Some (Finite 20)) (Some (Finite 300))
        (Some (Finite 60)))) = Some (Finite 3)"
proof -
  let ?sc = "\<lparr>slope_s = Some (Finite 2), rough_s = Some (Finite 2), lc_s = Some (Finite 3),
              distWater_s = Some (Finite 2), distRoad_s = Some (Finite 4)\<rparr>"
  have sc: "score_cell (Some (Finite 10)) (Some (Finite 2)) (Some (Finite 20))
              (Some (Finite 300)) (Some (Finite 60)) = ?sc"
    by (simp add: score_cell_def slopeScore_table roughScore_table lcScore_listed
          distWaterScore_table distRoadScore_table)
  have w: "weighted weights ?sc = Some (lit 2.4)"
    unfolding weights_def weighted_Some lit_fraction_values by (simp add: fp_fast)
  have v: "lit 2.4 = Finite (5404319552844595 / 2251799813685248)"
    "lit 0.48 = Finite (1080863910568919 / 2251799813685248)"
    by (simp_all add: fp_fast)
  have s: "susceptibility weights ?sc = Some (lit 0.48)"
    unfolding susceptibility_def maxPossible_weights w v
    by (simp add: divide_img_def binop_def fp_fast)
  have c: "susClass (Some (lit 0.48)) = Some (Finite 3)"
    unfolding v susClass_table lit_fraction_values by (simp add: value_of_def)
  show ?thesis
    unfolding sc w s c maxPossible_weights by simp
qed

text \<open>
  C6. The land-cover chain scores the ten class values it lists in 1..5, but it has no
  rule for the class value 95, the mangroves of the land-cover dataset the script
  loads: the rule the script comments as mangroves tests the value 100. A cell of class
  95 keeps the initial 0, which is no score of 1..5.
\<close>

theorem lcScore_class_95:
  "lcScore (Some (Finite 95)) = Some (Finite 0) \<and>
   \<not> valid_score (lcScore (Some (Finite 95))) \<and>
   lcScore (Some (Finite 100)) = Some (Finite 2)"
  by (simp add: lcScore_unlisted lcScore_listed valid_score_def)

subsection \<open>The distance transform\<close>

lemma filter_eq_single:
  "distinct xs \<Longrightarrow> a \<in> set xs \<Longrightarrow> filter (\<lambda>x. x = a) xs = [a]"
proof (induction xs)
  case Nil
  then show ?case by simp
next
  case (Cons x xs)
  show ?case
  proof (cases "x = a")
    case True
    with Cons.prems have "a \<notin> set xs" by simp
    then have "filter (\<lambda>x. x = a) xs = []" by (auto simp: filter_empty_conv)
    with True show ?thesis by simp
  next
    case False
    with Cons show ?thesis by simp
  qed
qed

lemma distinct_window: "distinct (window n)"
  by (simp add: window_def distinct_product)

lemma set_window: "d \<in> set (window n) \<longleftrightarrow> \<bar>fst d\<bar> \<le> int n \<and> \<bar>snd d\<bar> \<le> int n"
  by (cases d) (auto simp: window_def)

text \<open>
  With a single non-zero cell in the window, the transform gives the metric's distance
  to it.
\<close>

lemma fastDistanceTransform_single:
  assumes "\<bar>fst d\<bar> \<le> int n" "\<bar>snd d\<bar> \<le> int n"
    and "\<And>d'. \<bar>fst d'\<bar> \<le> int n \<Longrightarrow> \<bar>snd d'\<bar> \<le> int n \<Longrightarrow>
           nonzero (img (fst c + fst d', snd c + snd d')) \<longleftrightarrow> d' = d"
  shows "fastDistanceTransform far n m img c = Some (Finite (metric_dist m d))"
proof -
  have "filter (\<lambda>d'. nonzero (img (fst c + fst d', snd c + snd d'))) (window n) =
        filter (\<lambda>d'. d' = d) (window n)"
    by (rule filter_cong) (auto simp: set_window assms(3))
  also have "\<dots> = [d]"
    by (rule filter_eq_single) (simp_all add: distinct_window set_window assms(1,2))
  finally show ?thesis
    by (simp add: fastDistanceTransform_def)
qed

lemma fastDistanceTransform_none:
  assumes "\<And>d. \<not> nonzero (img (fst c + fst d, snd c + snd d))"
  shows "fastDistanceTransform far n m img c = far"
  by (simp add: fastDistanceTransform_def assms)

lemma fold_min_Min: "fold min xs (x::real) = Min (set (x # xs))"
  by (simp only: Min.set_eq_fold)

text \<open>At a non-zero cell of the input the squared distance is 0.\<close>

lemma fastDistanceTransform_at_feature:
  assumes "nonzero (img c)"
  shows "fastDistanceTransform far n squared_euclidean img c = Some (Finite 0)"
proof -
  let ?ds = "map (metric_dist squared_euclidean)
               (filter (\<lambda>d. nonzero (img (fst c + fst d, snd c + snd d))) (window n))"
  have "(0, 0) \<in> set (window n)"
    by (simp add: set_window)
  with assms have in0: "0 \<in> set ?ds"
    by (force simp: metric_dist_def)
  have nonneg: "\<And>y. y \<in> set ?ds \<Longrightarrow> 0 \<le> y"
    by (auto simp: metric_dist_def)
  from in0 obtain x xs where ds: "?ds = x # xs"
    by (cases ?ds) auto
  have "Min (set (x # xs)) = 0"
    using in0 nonneg unfolding ds by (intro Min_eqI) auto
  then show ?thesis
    unfolding fastDistanceTransform_def ds by (simp add: fold_min_Min)
qed

text \<open>The water mask: occurrence strictly above 10, and 0 where the layer is masked.\<close>

lemma waterBinary_value:
  "waterBinary gsw c =
     Some (Finite (if \<exists>v. gsw c = Some v \<and> dlt (Finite 10) v then 1 else 0))"
  unfolding waterBinary_def waterMask_def Image_def lit_int_values
  by (cases "gsw c")
     (simp_all add: toByte_def unmask_img_def gt_img_def binop_def truth_def lit_int_values)

lemma roadsRaster_value:
  "roadsRaster roads c = Some (Finite (if list_ex (\<lambda>f. c \<in> set f) roads then 1 else 0))"
  unfolding roadsRaster_def paint_def Image_def lit_int_values
  by (simp add: toByte_def)

lemma times_thirty:
  "multiply_img (Some (Finite 4)) (Image 30) = Some (Finite 120)"
  "multiply_img (Some (Finite 0)) (Image 30) = Some (Finite 0)"
  "multiply_img (Some (Finite 10000)) (Image 30) = Some (Finite 300000)"
  "multiply_img None (Image 30) = None"
  unfolding Image_def lit_int_values
  by (simp_all add: multiply_img_def binop_def fp_fast)

text \<open>
  C5. The distance layers are 30 times the squared cell distance, not 30 times the cell
  distance: the script calls the transform with its default metric. With one water cell
  at the origin (occurrence 90, elsewhere 0) and one road cell at the origin, the cell
  two columns to the right is 2 cells, 60 m, away, and both layers hold 120 there. At
  the feature cell itself they hold 0.
\<close>

theorem distance_layers_two_cells_away:
  "dtWater far (\<lambda>c. if c = (0, 0) then Some (Finite 90) else Some (Finite 0)) (2, 0)
     = Some (Finite 120) \<and>
   dtRoad far [[(0, 0)]] (2, 0) = Some (Finite 120) \<and>
   dtWater far (\<lambda>c. if c = (0, 0) then Some (Finite 90) else Some (Finite 0)) (0, 0)
     = Some (Finite 0) \<and>
   dtRoad far [[(0, 0)]] (0, 0) = Some (Finite 0)"
proof -
  let ?gsw = "\<lambda>c::cell. if c = (0, 0) then Some (Finite 90) else Some (Finite 0)"
  have w2: "fastDistanceTransform far 30 squared_euclidean (waterBinary ?gsw) (2, 0) =
            Some (Finite (metric_dist squared_euclidean (- 2, 0)))"
    by (rule fastDistanceTransform_single)
       (auto simp: waterBinary_value nonzero_def is_nonzero_def dlt_def)
  have w0: "fastDistanceTransform far 30 squared_euclidean (waterBinary ?gsw) (0, 0) =
            Some (Finite (metric_dist squared_euclidean (0, 0)))"
    by (rule fastDistanceTransform_single)
       (auto simp: waterBinary_value nonzero_def is_nonzero_def dlt_def)
  have r2: "fastDistanceTransform far 30 squared_euclidean (roadsRaster [[(0, 0)]]) (2, 0) =
            Some (Finite (metric_dist squared_euclidean (- 2, 0)))"
    by (rule fastDistanceTransform_single)
       (auto simp: roadsRaster_value nonzero_def is_nonzero_def)
  have r0: "fastDistanceTransform far 30 squared_euclidean (roadsRaster [[(0, 0)]]) (0, 0) =
            Some (Finite (metric_dist squared_euclidean (0, 0)))"
    by (rule fastDistanceTransform_single)
       (auto simp: roadsRaster_value nonzero_def is_nonzero_def)
  show ?thesis
    by (simp add: dtWater_def dtRoad_def w2 w0 r2 r0 metric_dist_def times_thirty)
qed

subsection \<open>Masked cells\<close>

text \<open>
  C7, as the script has it. A masked predictor cell is not propagated: its where-chain
  keeps the initial 0, unmasked, and the water mask is unmasked to 0 before the distance
  transform. So whatever the weights and whichever predictor cells are masked, the
  susceptibility and the class of every cell of a run are unmasked values.
\<close>

theorem masked_cells_are_scored:
  "slopeScore None = Some (Finite 0) \<and> roughScore None = Some (Finite 0) \<and>
   lcScore None = Some (Finite 0) \<and> distWaterScore None = Some (Finite 0) \<and>
   distRoadScore None = Some (Finite 0) \<and>
   (\<exists>b. waterBinary gsw c = Some b) \<and>
   (\<exists>v. susceptibility w (score_cell s r lc dw dr) = Some v) \<and>
   (\<exists>out v k. run w far aoi src = Inr out \<and> susceptibility_out out c = Some v \<and>
        susClass_out out c = Some k)"
proof -
  obtain v where v: "susceptibility w (scores_at far aoi src c) = Some v"
    unfolding scores_at_def using susceptibility_unmasked by blast
  obtain k where k: "susClass (Some v) = Some k"
    using score_unmasked(6) by blast
  have "\<exists>out v k. run w far aoi src = Inr out \<and> susceptibility_out out c = Some v \<and>
          susClass_out out c = Some k"
    by (simp add: run_def Let_def v k)
  then show ?thesis
    by (simp add: scores_of_masked waterBinary_value susceptibility_unmasked)
qed

text \<open>
  Where the slope is masked and the other predictors are those of the scenario of C4,
  the susceptibility is the unmasked value 0.3; where no dataset has coverage at all, a
  run still reports the susceptibility 0 and the class 1.
\<close>

theorem masked_slope_counterexample:
  "susceptibility weights
     (score_cell None (Some (Finite 2)) (Some (Finite 20)) (Some (Finite 300))
        (Some (Finite 60))) = Some (lit 0.3) \<and>
   (\<exists>out. run weights None [(0, 0)] no_coverage_sources = Inr out \<and>
      susceptibility_out out (0, 0) = Some (Finite 0) \<and>
      susClass_out out (0, 0) = Some (Finite 1))"
proof -
  let ?sc = "\<lparr>slope_s = Some (Finite 0), rough_s = Some (Finite 2), lc_s = Some (Finite 3),
              distWater_s = Some (Finite 2), distRoad_s = Some (Finite 4)\<rparr>"
  let ?z = "\<lparr>slope_s = Some (Finite 0), rough_s = Some (Finite 0), lc_s = Some (Finite 0),
              distWater_s = Some (Finite 0), distRoad_s = Some (Finite 0)\<rparr>"
  have sc: "score_cell None (Some (Finite 2)) (Some (Finite 20)) (Some (Finite 300))
              (Some (Finite 60)) = ?sc"
    by (simp add: score_cell_def scores_of_masked roughScore_table lcScore_listed
          distWaterScore_table distRoadScore_table)
  have w: "weighted weights ?sc = Some (Finite (3 / 2))"
    unfolding weights_def weighted_Some lit_fraction_values by (simp add: fp_fast)
  have a: "susceptibility weights ?sc = Some (lit 0.3)"
    unfolding susceptibility_def maxPossible_weights w
    by (simp add: divide_img_def binop_def fp_fast)
  have dw: "dtWater None (clip (gsw_img no_coverage_sources) [(0, 0)]) (0, 0) = None"
    by (simp add: dtWater_def fastDistanceTransform_none waterBinary_value nonzero_def
          is_nonzero_def clip_def no_coverage_sources_def times_thirty)
  have dr: "dtRoad None (filterBounds (roads_fc no_coverage_sources) [(0, 0)]) (0, 0) = None"
    by (simp add: dtRoad_def fastDistanceTransform_none roadsRaster_value nonzero_def
          is_nonzero_def filterBounds_def no_coverage_sources_def times_thirty)
  have z: "scores_at None [(0, 0)] no_coverage_sources (0, 0) = ?z"
    unfolding scores_at_def dw dr
    by (simp add: score_cell_def clip_def no_coverage_sources_def scores_of_masked)
  have wz: "weighted weights ?z = Some (Finite 0)"
    unfolding weights_def weighted_Some lit_fraction_values by (simp add: fp_fast)
  have s: "susceptibility weights ?z = Some (Finite 0)"
    unfolding susceptibility_def maxPossible_weights wz
    by (simp add: divide_img_def binop_def fp_fast)
  have c: "susClass (Some (Finite 0)) = Some (Finite 1)"
    unfolding susClass_table lit_fraction_values by (simp add: value_of_def)
  have "\<exists>out. run weights None [(0, 0)] no_coverage_sources = Inr out \<and>
          susceptibility_out out (0, 0) = Some (Finite 0) \<and>
          susClass_out out (0, 0) = Some (Finite 1)"
    by (simp add: run_def Let_def z s c)
  with a sc show ?thesis by simp
qed

subsection \<open>Weights are not validated\<close>

text \<open>
  C8, as the script has it. A run never rejects its weight vector: for every weight
  vector, one with negative entries included, it returns its outputs, and the
  susceptibility of a cell is the overlay of the cell's scores with the weights as they
  were given, in the weighted sum and in the maximum alike.
\<close>

theorem run_takes_any_weights:
  "(\<exists>out. run w far aoi src = Inr out \<and>
      susceptibility_out out c = susceptibility w (scores_at far aoi src c)) \<and>
   susceptibility w \<lparr>slope_s = Some a, rough_s = Some b, lc_s = Some c', distWater_s = Some d,
                     distRoad_s = Some e\<rparr> =
     Some (ddiv (dadd (dadd (dadd (dadd (dmul a (slope w)) (dmul b (roughness w)))
                                  (dmul c' (landcover w)))
                            (dmul d (distWater w)))
                      (dmul e (distRoad w)))
                (dmul (lit 5)
                   (dadd (dadd (dadd (dadd (slope w) (roughness w)) (landcover w))
                               (distWater w))
                         (distRoad w))))"
  by (simp add: run_def Let_def susceptibility_Some)

text \<open>
  With the slope weight -0.45, a run over steep ground is not rejected: it reports the
  susceptibility -3.400000000000001 for the cell.
\<close>

theorem negative_weight_counterexample:
  "\<not> nonneg_weights negative_slope_weights \<and>
   (\<exists>out. run negative_slope_weights (Some (Finite 10000)) [(0, 0)] steep_dry_sources = Inr out \<and>
      susceptibility_out out (0, 0) = Some (lit (- 3.400000000000001)))"
proof -
  let ?sc = "\<lparr>slope_s = Some (Finite 5), rough_s = Some (Finite 1), lc_s = Some (Finite 1),
              distWater_s = Some (Finite 1), distRoad_s = Some (Finite 1)\<rparr>"
  have dw: "dtWater (Some (Finite 10000)) (clip (gsw_img steep_dry_sources) [(0, 0)]) (0, 0)
             = Some (Finite 300000)"
    by (simp add: dtWater_def fastDistanceTransform_none waterBinary_value nonzero_def
          is_nonzero_def dlt_def clip_def steep_dry_sources_def times_thirty)
  have dr: "dtRoad (Some (Finite 10000)) (filterBounds (roads_fc steep_dry_sources) [(0, 0)])
              (0, 0) = Some (Finite 300000)"
    by (simp add: dtRoad_def fastDistanceTransform_none roadsRaster_value nonzero_def
          is_nonzero_def filterBounds_def steep_dry_sources_def times_thirty)
  have sc: "scores_at (Some (Finite 10000)) [(0, 0)] steep_dry_sources (0, 0) = ?sc"
    unfolding scores_at_def dw dr
    by (simp add: score_cell_def clip_def steep_dry_sources_def slopeScore_table
          roughScore_table lcScore_listed distWaterScore_table distRoadScore_table)
  have s: "susceptibility negative_slope_weights ?sc = Some (lit (- 3.400000000000001))"
    unfolding negative_slope_weights_def susceptibility_Some lit_fraction_values
      lit_int_values
    by (simp add: fp_eval)
  have n: "\<not> nonneg_weights negative_slope_weights"
    unfolding negative_slope_weights_def lit_fraction_values
    by (simp add: nonneg_weights_def dle_def)
  have "\<exists>out. run negative_slope_weights (Some (Finite 10000)) [(0, 0)] steep_dry_sources
            = Inr out \<and>
          susceptibility_out out (0, 0) = Some (lit (- 3.400000000000001))"
    unfolding run_def Let_def by (simp add: sc s)
  with n show ?thesis by simp
qed

subsection \<open>Percentiles\<close>

lemma set_map_filter_img: "set (List.map_filter f xs) = {y. \<exists>x \<in> set xs. f x = Some y}"
  by (induction xs) (auto split: option.splits)

lemma percentile_of_uniform:
  assumes "xs \<noteq> []" and "set xs \<subseteq> {v}"
  shows "percentile_of p xs = Some v"
proof -
  let ?k = "min (length xs - 1) (nat \<lceil>real p * real (length xs) / 100\<rceil> - 1)"
  have "?k < length (sort_key dkey xs)"
    using assms(1) by (simp add: min_less_iff_disj)
  then have "sort_key dkey xs ! ?k \<in> set (sort_key dkey xs)"
    by (rule nth_mem)
  then have "sort_key dkey xs ! ?k = v"
    using assms(2) by auto
  then show ?thesis
    using assms(1) by (simp add: percentile_of_def)
qed

lemma stats_too_many_pixels: "10 ^ 13 < int (length aoi) \<Longrightarrow> stats img aoi = Inl TooManyPixels"
  by (simp add: stats_def reduceRegion_def)

text \<open>
  C9. The statistics of a run are the percentiles 10, 25, 50, 75 and 90 of its
  susceptibility layer over the area of interest. For a layer whose unmasked cells in
  the area all hold the same value v (at least one unmasked cell, at most 1e13 cells),
  each of the five percentiles is v.
\<close>

theorem percentiles_of_uniform_raster:
  assumes "int (length aoi) \<le> 10 ^ 13"
    and "\<forall>c \<in> set aoi. img c = None \<or> img c = Some v"
    and "\<exists>c \<in> set aoi. img c = Some v"
  shows "stats img aoi =
           Inr [(10, Some v), (25, Some v), (50, Some v), (75, Some v), (90, Some v)] \<and>
         (\<exists>out. run w far aoi src = Inr out \<and>
            stats_out out =
              reduceRegion (percentile [10, 25, 50, 75, 90]) aoi (10 ^ 13)
                (susceptibility_out out))"
proof -
  let ?xs = "List.map_filter img aoi"
  have ne: "?xs \<noteq> []"
  proof -
    from assms(3) have "v \<in> set ?xs" by (auto simp: set_map_filter_img)
    then show ?thesis by auto
  qed
  have sub: "set ?xs \<subseteq> {v}"
    using assms(2) by (auto simp: set_map_filter_img)
  have "\<And>p. percentile_of p ?xs = Some v"
    using ne sub by (rule percentile_of_uniform)
  then have "stats img aoi =
      Inr [(10, Some v), (25, Some v), (50, Some v), (75, Some v), (90, Some v)]"
    using assms(1) by (simp add: stats_def reduceRegion_def percentile_def)
  moreover have "\<exists>out. run w far aoi src = Inr out \<and>
      stats_out out =
        reduceRegion (percentile [10, 25, 50, 75, 90]) aoi (10 ^ 13) (susceptibility_out out)"
    by (simp add: run_def Let_def stats_def)
  ultimately show ?thesis by simp
qed

theorem percentiles_of_uniform_raster_witness:
  "stats (\<lambda>c. if c = (1, 0) then None else Some (Finite 0.3)) [(0, 0), (1, 0), (2, 0)] =
     Inr [(10, Some (Finite 0.3)), (25, Some (Finite 0.3)), (50, Some (Finite 0.3)),
          (75, Some (Finite 0.3)), (90, Some (Finite 0.3))]"
  using percentiles_of_uniform_raster
          [of "[(0, 0), (1, 0), (2, 0)]" "\<lambda>c. if c = (1, 0) then None else Some (Finite 0.3)"
              "Finite 0.3"]
  by simp

end
